theory Spec2Isabelle
  imports Main
begin

section \<open>Data model of scientist.go\<close>

text \<open>
  A Go \<^verbatim>\<open>error\<close> is an interface value: it has an identity of its own and a text, which the
  method \<^verbatim>\<open>Error()\<close> returns. Three kinds of error occur in a run: the errors the caller's
  callbacks return (an identity and a text), \<^verbatim>\<open>context.DeadlineExceeded\<close>, which is what
  \<^verbatim>\<open>ctx.Err()\<close> gives once the deadline of \<^verbatim>\<open>context.WithTimeout\<close> has passed, and the
  errors built by \<^verbatim>\<open>fmt.Errorf\<close>, which hold the text that was formatted when they were built.
\<close>

datatype error =
    CallerError nat string
  | DeadlineExceeded
  | Errorf string

fun Error :: "error \<Rightarrow> string" where
  "Error (CallerError i msg) = msg"
| "Error DeadlineExceeded = ''context deadline exceeded''"
| "Error (Errorf msg) = msg"

text \<open>
  \<^verbatim>\<open>Observation\<close>. A \<^verbatim>\<open>*Experiment\<close> is the address of the experiment, \<open>None\<close> when the pointer
  is nil. \<^verbatim>\<open>Value\<close> is an \<^verbatim>\<open>interface{}\<close>: \<open>None\<close> is the nil interface, \<open>Some v\<close> any
  other value. The wall-clock fields \<^verbatim>\<open>Started\<close> and \<^verbatim>\<open>Runtime\<close> are left out.
\<close>

record 'v Observation =
  Experiment :: "nat option"
  Name :: string
  Value :: "'v option"
  Err :: "error option"

record ResultError =
  Operation :: string
  Experiment :: string
  Err :: error

text \<open>
  \<^verbatim>\<open>Result\<close>. \<^verbatim>\<open>Control\<close> is a pointer and the four slices hold pointers; \<^verbatim>\<open>Observations\<close>
  and \<^verbatim>\<open>Candidates\<close> are made with nil entries and filled by index, \<^verbatim>\<open>Ignored\<close> and
  \<^verbatim>\<open>Mismatched\<close> only ever receive the non-nil pointers that are appended to them.
\<close>

record 'v Result =
  Experiment :: "nat option"
  Control :: "'v Observation option"
  Observations :: "'v Observation option list"
  Candidates :: "'v Observation option list"
  Ignored :: "'v Observation list"
  Mismatched :: "'v Observation list"
  Errors :: "ResultError list"

text \<open>
  \<^verbatim>\<open>observationResult\<close>, the message a behavior's goroutine sends on \<^verbatim>\<open>resultChan\<close>: the
  behavior's name, its observation and the error of the context, if it was done first.
\<close>

datatype 'v observationResult = observationResult string "'v Observation" "error option"

text \<open>
  A \<^verbatim>\<open>behaviorFunc\<close> takes no argument and is called at most once in a run, so it is
  represented by what that call does: it returns a value and an error, or it panics.
  \<open>None\<close> is the nil function.
\<close>

datatype 'v call = Returns "'v option" "error option" | Panics

type_synonym 'v behaviorFunc = "'v call option"

type_synonym 'v valueFunc = "'v option \<Rightarrow> 'v option \<Rightarrow> bool \<times> error option"

text \<open>
  The fields of \<^verbatim>\<open>Experiment\<close> that \<^verbatim>\<open>Run\<close> and its caller read (the type is declared
  outside scientist.go). \<open>self\<close> is the address of the experiment. \<open>behaviors\<close> is a Go map
  from names to functions: it is kept as a list of its entries with distinct keys, in the
  order in which they were registered. The map itself does not retain that order: the
  order in which \<^verbatim>\<open>range\<close> yields the entries is a parameter of \<open>Run\<close>. \<open>beforeRun\<close> is what
  the call \<^verbatim>\<open>e.beforeRun()\<close> returns. \<^verbatim>\<open>e.errorReporter\<close> returns nothing: its call is
  recorded in the trace of the run.

  \<open>fmt_q\<close> is not a field of the struct. It is the verb \<^verbatim>\<open>%q\<close> of the package \<^verbatim>\<open>fmt\<close>, that is
  \<^verbatim>\<open>strconv.Quote\<close>: a function of the Go library, taken as a parameter of the run.
\<close>

record 'v Experiment =
  self :: nat
  fmt_q :: "string \<Rightarrow> string"
  Name :: string
  ErrorOnMismatches :: bool
  behaviors :: "(string \<times> 'v behaviorFunc) list"
  comparator :: "'v valueFunc"
  ignores :: "'v valueFunc list"
  runConcurrently :: bool
  timeout :: "nat option"
  beforeRun :: "error option"
  publisher :: "'v Result \<Rightarrow> error option"

text \<open>
  What ends \<^verbatim>\<open>Run\<close> without a result: a panic of the Go runtime inside \<^verbatim>\<open>Run\<close>, the panic
  of a behavior called on the goroutine of \<^verbatim>\<open>Run\<close>, which no \<^verbatim>\<open>recover\<close> stops on its way to
  the caller, and the panic of a behavior called on a goroutine of its own, which ends the
  process.
\<close>

datatype panic =
  MakeSliceLen | IndexOutOfRange | NilDereference | BehaviorPanic | GoroutinePanic

text \<open>
  What a call of \<^verbatim>\<open>Run\<close> does that its caller and the two sinks can see: the \<^verbatim>\<open>Result\<close> it
  returns, the \<^verbatim>\<open>Result\<close> it passed to \<^verbatim>\<open>e.publisher\<close>, and the errors it passed to
  \<^verbatim>\<open>e.errorReporter\<close> (\<open>None\<close> when the reporter was not called).
\<close>

record 'v RunTrace =
  returned :: "'v Result"
  published :: "'v Result"
  reported :: "ResultError list option"

section \<open>Operations\<close>

text \<open>
  Modelled from the spec: \<^verbatim>\<open>e.resultErr\<close> is declared outside scientist.go. The spec's
  OperationError is \<^verbatim>\<open>{operation, experiment_name, error}\<close>, which are the three fields of
  \<^verbatim>\<open>ResultError\<close>.
\<close>

definition resultErr :: "'v Experiment \<Rightarrow> string \<Rightarrow> error \<Rightarrow> ResultError" where
  "resultErr e operation err =
     \<lparr>Operation = operation, ResultError.Experiment = Experiment.Name e,
      ResultError.Err = err\<rparr>"

text \<open>\<^verbatim>\<open>e.behaviors[name]\<close>: the nil function when the map has no such key.\<close>

definition behaviors_at :: "'v Experiment \<Rightarrow> string \<Rightarrow> 'v behaviorFunc" where
  "behaviors_at e name = (case map_of (behaviors e) name of None \<Rightarrow> None | Some b \<Rightarrow> b)"

definition behaviorNotFound :: "'v Experiment \<Rightarrow> string \<Rightarrow> error" where
  "behaviorNotFound e name =
     Errorf (''Behavior '' @ fmt_q e name @ '' not found for experiment '' @
             fmt_q e (Experiment.Name e))"

text \<open>
  \<^verbatim>\<open>observe\<close>. The call \<^verbatim>\<open>b()\<close> is not guarded by a \<^verbatim>\<open>recover\<close>: when the behavior panics,
  the panic leaves \<^verbatim>\<open>observe\<close>.
\<close>

definition observe ::
  "'v Experiment \<Rightarrow> string \<Rightarrow> 'v behaviorFunc \<Rightarrow> panic + 'v Observation" where
  "observe e name b =
     (let o1 = \<lparr>Observation.Experiment = Some (self e), Observation.Name = name,
                Value = None, Observation.Err = None\<rparr>;
          b1 = (if b = None then behaviors_at e name else b)
      in case b1 of
           None \<Rightarrow> Inr (o1\<lparr>Observation.Err := Some (behaviorNotFound e name)\<rparr>)
         | Some Panics \<Rightarrow> Inl BehaviorPanic
         | Some (Returns v err) \<Rightarrow> Inr (o1\<lparr>Value := v, Observation.Err := err\<rparr>))"

definition matching ::
  "'v Experiment \<Rightarrow> 'v Observation \<Rightarrow> 'v Observation \<Rightarrow> bool \<times> error option" where
  "matching e control candidate =
     (if Observation.Err control = None \<and> Observation.Err candidate = None
      then comparator e (Value control) (Value candidate)
      else case (Observation.Err control, Observation.Err candidate) of
             (Some cerr, Some derr) \<Rightarrow> (Error cerr = Error derr, None)
           | _ \<Rightarrow> (False, None))"

text \<open>The loop of \<^verbatim>\<open>ignoring\<close> over \<^verbatim>\<open>e.ignores\<close>.\<close>

fun ignoring_range :: "'v valueFunc list \<Rightarrow> 'v option \<Rightarrow> 'v option \<Rightarrow> bool \<times> error option" where
  "ignoring_range [] cv dv = (False, None)"
| "ignoring_range (i # rest) cv dv =
     (case i cv dv of
        (ok, Some err) \<Rightarrow> (False, Some err)
      | (ok, None) \<Rightarrow> if ok then (True, None) else ignoring_range rest cv dv)"

definition ignoring ::
  "'v Experiment \<Rightarrow> 'v Observation \<Rightarrow> 'v Observation \<Rightarrow> bool \<times> error option" where
  "ignoring e control candidate = ignoring_range (ignores e) (Value control) (Value candidate)"

definition processObservation ::
  "'v Experiment \<Rightarrow> 'v Result \<Rightarrow> 'v Observation \<Rightarrow> 'v Observation \<Rightarrow> 'v Result" where
  "processObservation e r control candidate =
     (let (ok0, merr) = matching e control candidate;
          (ok, r1) = (case merr of
                        Some err \<Rightarrow> (False, r\<lparr>Errors := Errors r @ [resultErr e ''compare'' err]\<rparr>)
                      | None \<Rightarrow> (ok0, r))
      in if ok then r1
         else let (ignored0, ierr) = ignoring e control candidate;
                  (ignored, r2) =
                    (case ierr of
                       Some err \<Rightarrow> (False, r1\<lparr>Errors := Errors r1 @ [resultErr e ''ignore'' err]\<rparr>)
                     | None \<Rightarrow> (ignored0, r1))
              in if ignored then r2\<lparr>Ignored := Ignored r2 @ [candidate]\<rparr>
                 else r2\<lparr>Mismatched := Mismatched r2 @ [candidate]\<rparr>)"

text \<open>
  The loop of the sequential branch of \<^verbatim>\<open>Run\<close>, over the names in the order in which
  \<^verbatim>\<open>range e.behaviors\<close> yields them. Writing past the end of \<^verbatim>\<open>r.Candidates\<close> or
  \<^verbatim>\<open>r.Observations\<close> panics, and a panic of \<^verbatim>\<open>observe\<close> goes on to the caller.
\<close>

fun run_sequential ::
  "'v Experiment \<Rightarrow> string \<Rightarrow> string list \<Rightarrow> nat \<Rightarrow> 'v Result \<Rightarrow> panic + 'v Result" where
  "run_sequential e name [] i r = Inr r"
| "run_sequential e name (bname # rest) i r =
     (if bname = name then run_sequential e name rest i r
      else case observe e bname (behaviors_at e bname) of
        Inl p \<Rightarrow> Inl p
      | Inr c \<Rightarrow>
        if length (Candidates r) \<le> i then Inl IndexOutOfRange
        else let r1 = r\<lparr>Candidates := (Candidates r)[i := Some c]\<rparr>;
                 i1 = i + 1
             in if length (Observations r1) \<le> i1 then Inl IndexOutOfRange
                else let r2 = r1\<lparr>Observations := (Observations r1)[i1 := Some c]\<rparr> in
                  (case Control r2 of
                     None \<Rightarrow> Inl NilDereference
                   | Some control \<Rightarrow>
                       run_sequential e name rest i1 (processObservation e r2 control c)))"

text \<open>
  The goroutine of one behavior in the concurrent branch. The flag says which case of the
  \<^verbatim>\<open>select\<close> was taken: \<open>True\<close> when \<^verbatim>\<open>ctx.Done()\<close> was ready before the observation
  arrived on \<^verbatim>\<open>doneChan\<close>. Without a timeout the context of \<^verbatim>\<open>createContext\<close> is only done
  by the deferred \<^verbatim>\<open>cancel\<close>, after the \<^verbatim>\<open>select\<close>, so the flag has no effect then.

  \<^verbatim>\<open>observe\<close> runs on a goroutine of its own, without a \<^verbatim>\<open>recover\<close>: when the behavior
  panics there, the process ends and the run has no result. For a behavior that panics,
  the flag \<open>True\<close> stands for the runs in which \<^verbatim>\<open>Run\<close> took the timed-out result and returned
  before that panic, the flag \<open>False\<close> for the runs that the panic ended.
\<close>

definition launch :: "'v Experiment \<Rightarrow> string \<times> bool \<Rightarrow> panic + 'v observationResult" where
  "launch e s =
     (case s of (behaviorName, ctx_done) \<Rightarrow>
        if ctx_done \<and> timeout e \<noteq> None
        then Inr (observationResult behaviorName
               \<lparr>Observation.Experiment = None, Observation.Name = behaviorName,
                Value = None, Observation.Err = None\<rparr>
               (Some DeadlineExceeded))
        else (case observe e behaviorName (behaviors_at e behaviorName) of
                Inl p \<Rightarrow> Inl GoroutinePanic
              | Inr obs \<Rightarrow> Inr (observationResult behaviorName obs None)))"

text \<open>
  What the goroutines send on \<^verbatim>\<open>resultChan\<close>, in the order of arrival; there is none when a
  goroutine has ended the process.
\<close>

fun arrivals :: "(panic + 'a) list \<Rightarrow> panic + 'a list" where
  "arrivals [] = Inr []"
| "arrivals (x # xs) =
     (case x of
        Inl p \<Rightarrow> Inl p
      | Inr res \<Rightarrow> (case arrivals xs of Inl p \<Rightarrow> Inl p | Inr rest \<Rightarrow> Inr (res # rest)))"

text \<open>The loop \<^verbatim>\<open>for res := range resultChan\<close>, over the results in the order of arrival.\<close>

fun collect ::
  "'v Experiment \<Rightarrow> string \<Rightarrow> 'v observationResult list \<Rightarrow> nat \<Rightarrow> 'v Result \<Rightarrow> panic + 'v Result"
  where
  "collect e name [] i r = Inr r"
| "collect e name (observationResult rname obs rerr # rest) i r =
     (let r1 = (case rerr of
                  Some err \<Rightarrow> r\<lparr>Errors := Errors r @ [resultErr e ''timeout'' err]\<rparr>
                | None \<Rightarrow> r)
      in if rname = name
         then if length (Observations r1) \<le> 0 then Inl IndexOutOfRange
              else collect e name rest i
                     (r1\<lparr>Control := Some obs, Observations := (Observations r1)[0 := Some obs]\<rparr>)
         else if length (Candidates r1) \<le> i then Inl IndexOutOfRange
         else let r2 = r1\<lparr>Candidates := (Candidates r1)[i := Some obs]\<rparr> in
           if length (Observations r2) \<le> i + 1 then Inl IndexOutOfRange
           else collect e name rest (i + 1)
                  (r2\<lparr>Observations := (Observations r2)[i + 1 := Some obs]\<rparr>))"

text \<open>The loop \<^verbatim>\<open>for _, candidate := range r.Candidates\<close> of the concurrent branch.\<close>

fun classify ::
  "'v Experiment \<Rightarrow> 'v Observation option list \<Rightarrow> 'v Result \<Rightarrow> panic + 'v Result" where
  "classify e [] r = Inr r"
| "classify e (None # rest) r = classify e rest r"
| "classify e (Some candidate # rest) r =
     (case Control r of
        None \<Rightarrow> Inl NilDereference
      | Some control \<Rightarrow> classify e rest (processObservation e r control candidate))"

text \<open>The end of \<^verbatim>\<open>Run\<close>: the publish sink, then the error reporter.\<close>

definition finish :: "'v Experiment \<Rightarrow> 'v Result \<Rightarrow> 'v RunTrace" where
  "finish e r =
     (let r1 = (case publisher e r of
                  Some err \<Rightarrow> r\<lparr>Errors := Errors r @ [resultErr e ''publish'' err]\<rparr>
                | None \<Rightarrow> r)
      in \<lparr>returned = r1, published = r,
          reported = (if 0 < length (Errors r1) then Some (Errors r1) else None)\<rparr>)"

text \<open>
  \<^verbatim>\<open>Run\<close>. The schedule \<open>sched\<close> is what the Go runtime decides: in the sequential branch
  the order in which \<^verbatim>\<open>range e.behaviors\<close> yields the names (the flags are not read), in
  the concurrent branch the order in which the results arrive on \<^verbatim>\<open>resultChan\<close>, each with
  the case its \<^verbatim>\<open>select\<close> took. \<^verbatim>\<open>make\<close> panics on the length \<open>-1\<close> of an empty map.
\<close>

definition Run :: "'v Experiment \<Rightarrow> string \<Rightarrow> (string \<times> bool) list \<Rightarrow> panic + 'v RunTrace" where
  "Run e name sched =
     (let r = \<lparr>Result.Experiment = Some (self e), Control = None, Observations = [],
              Candidates = [], Ignored = [], Mismatched = [], Errors = []\<rparr>;
          r0 = (case beforeRun e of
                  Some err \<Rightarrow> r\<lparr>Errors := Errors r @ [resultErr e ''before_run'' err]\<rparr>
                | None \<Rightarrow> r);
          numBehaviors = length (behaviors e)
      in if numBehaviors = 0 then Inl MakeSliceLen
         else let r1 = r0\<lparr>Candidates := replicate (numBehaviors - 1) None,
                          Ignored := [], Mismatched := [],
                          Observations := replicate numBehaviors None\<rparr>;
                  body =
                    (if \<not> runConcurrently e
                     then (case observe e name (behaviors_at e name) of
                             Inl p \<Rightarrow> Inl p
                           | Inr control \<Rightarrow>
                               let r2 = r1\<lparr>Control := Some control,
                                           Observations := (Observations r1)[0 := Some control]\<rparr>
                               in run_sequential e name (map fst sched) 0 r2)
                     else (case arrivals (map (launch e) sched) of
                             Inl p \<Rightarrow> Inl p
                           | Inr results \<Rightarrow>
                               (case collect e name results 0 r1 of
                                  Inl p \<Rightarrow> Inl p
                                | Inr r2 \<Rightarrow> classify e (Candidates r2) r2)))
              in case body of
                   Inl p \<Rightarrow> Inl p
                 | Inr r3 \<Rightarrow> Inr (finish e r3))"

text \<open>\<^verbatim>\<open>IsMismatched\<close>, \<^verbatim>\<open>IsIgnored\<close> and \<^verbatim>\<open>IsMatched\<close> of a \<^verbatim>\<open>Result\<close>.\<close>

definition IsMismatched :: "'v Result \<Rightarrow> bool" where
  "IsMismatched r = (0 < length (Mismatched r))"

definition IsIgnored :: "'v Result \<Rightarrow> bool" where
  "IsIgnored r = (0 < length (Ignored r))"

definition IsMatched :: "'v Result \<Rightarrow> bool" where
  "IsMatched r = (if IsMismatched r \<or> IsIgnored r then False else True)"

definition controlBehavior :: string where
  "controlBehavior = ''control''"

text \<open>
  The error that the caller of an experiment receives: the error of the control
  observation, or a \<^verbatim>\<open>MismatchError\<close>, the struct of scientist.go that holds a \<^verbatim>\<open>Result\<close>.
\<close>

datatype 'v caller_error = ControlError error | MismatchError "'v Result"

text \<open>
  Modelled from the spec: the method \<^verbatim>\<open>Run\<close> of \<^verbatim>\<open>Experiment\<close>, which calls \<^verbatim>\<open>Run\<close> with the
  control's name and returns a value and an error to the caller of the experiment, is
  declared outside scientist.go. By the spec the caller receives the control's own value
  and error, unless the configuration asks that mismatches raise: then, when the result
  is mismatched, the caller receives a mismatch error that wraps the \<^verbatim>\<open>Result\<close>, and no
  value. The gate \<^verbatim>\<open>run_if\<close> that may skip the experiment is left out.
\<close>

definition Experiment_Run ::
  "'v Experiment \<Rightarrow> (string \<times> bool) list \<Rightarrow> panic + ('v option \<times> 'v caller_error option)"
  where
  "Experiment_Run e sched =
     (case Run e controlBehavior sched of
        Inl p \<Rightarrow> Inl p
      | Inr t \<Rightarrow>
          if ErrorOnMismatches e \<and> IsMismatched (returned t)
          then Inr (None, Some (MismatchError (returned t)))
          else (case Control (returned t) of
                  None \<Rightarrow> Inl NilDereference
                | Some control \<Rightarrow>
                    Inr (Value control, map_option ControlError (Observation.Err control))))"

text \<open>
  The registry is a Go map, so its keys are distinct; a schedule names every key of the
  map once.
\<close>

definition registry_ok :: "'v Experiment \<Rightarrow> bool" where
  "registry_ok e = distinct (map fst (behaviors e))"

definition schedule_ok :: "'v Experiment \<Rightarrow> (string \<times> bool) list \<Rightarrow> bool" where
  "schedule_ok e sched =
     (distinct (map fst sched) \<and> set (map fst sched) = set (map fst (behaviors e)))"

section \<open>Notions used to state the properties\<close>

text \<open>
  The verdict of \<^verbatim>\<open>processObservation\<close> on a candidate: it is matched when \<^verbatim>\<open>matching\<close>
  returns true without an error, ignored when it is not matched and \<^verbatim>\<open>ignoring\<close> returns
  true without an error, and mismatched otherwise.
\<close>

definition matched :: "'v Experiment \<Rightarrow> 'v Observation \<Rightarrow> 'v Observation \<Rightarrow> bool" where
  "matched e control candidate = (matching e control candidate = (True, None))"

definition is_ignored :: "'v Experiment \<Rightarrow> 'v Observation \<Rightarrow> 'v Observation \<Rightarrow> bool" where
  "is_ignored e control candidate =
     (\<not> matched e control candidate \<and> ignoring e control candidate = (True, None))"

definition is_mismatched :: "'v Experiment \<Rightarrow> 'v Observation \<Rightarrow> 'v Observation \<Rightarrow> bool" where
  "is_mismatched e control candidate =
     (\<not> matched e control candidate \<and> ignoring e control candidate \<noteq> (True, None))"

text \<open>The operation errors that \<^verbatim>\<open>processObservation\<close> appends for one candidate.\<close>

definition process_errors :: "'v Experiment \<Rightarrow> 'v Observation \<Rightarrow> 'v Observation \<Rightarrow> ResultError list" where
  "process_errors e control candidate =
     (case snd (matching e control candidate) of
        Some err \<Rightarrow> [resultErr e ''compare'' err] | None \<Rightarrow> []) @
     (if matched e control candidate then []
      else case snd (ignoring e control candidate) of
             Some err \<Rightarrow> [resultErr e ''ignore'' err] | None \<Rightarrow> [])"

text \<open>The three fields of an \<^verbatim>\<open>observationResult\<close>.\<close>

fun res_name :: "'v observationResult \<Rightarrow> string" where
  "res_name (observationResult rname obs rerr) = rname"

fun res_obs :: "'v observationResult \<Rightarrow> 'v Observation" where
  "res_obs (observationResult rname obs rerr) = obs"

fun res_err :: "'v observationResult \<Rightarrow> error option" where
  "res_err (observationResult rname obs rerr) = rerr"

text \<open>The operation error that the collecting loop appends for one result.\<close>

definition timeout_errors :: "'v Experiment \<Rightarrow> 'v observationResult \<Rightarrow> ResultError list" where
  "timeout_errors e res =
     (case res_err res of Some err \<Rightarrow> [resultErr e ''timeout'' err] | None \<Rightarrow> [])"

text \<open>The non-nil pointers of a slice of pointers.\<close>

definition present :: "'a option list \<Rightarrow> 'a list" where
  "present xs = map the (filter (\<lambda>x. x \<noteq> None) xs)"

text \<open>
  A behavior is abandoned when its goroutine takes the case \<^verbatim>\<open>ctx.Done()\<close>: in the
  concurrent branch, with a timeout, when the schedule says so. The calls that a run
  awaits are those of the behaviors that are not abandoned; the run has a result only if
  each of them returns.
\<close>

definition abandoned :: "'v Experiment \<Rightarrow> bool \<Rightarrow> bool" where
  "abandoned e ctx_done = (runConcurrently e \<and> ctx_done \<and> timeout e \<noteq> None)"

definition calls_return :: "'v Experiment \<Rightarrow> (string \<times> bool) list \<Rightarrow> bool" where
  "calls_return e sched =
     (\<forall>s \<in> set sched. abandoned e (snd s) \<or> behaviors_at e (fst s) \<noteq> Some Panics)"

text \<open>
  The observation that \<^verbatim>\<open>observe\<close> returns for a registered behavior whose call returns,
  and the observation that \<^verbatim>\<open>Run\<close> stores for one entry of the schedule: what the
  goroutine of the behavior sent in the concurrent branch, what \<^verbatim>\<open>observe\<close> returned in the
  sequential one.
\<close>

definition captured :: "'v Experiment \<Rightarrow> string \<Rightarrow> 'v Observation" where
  "captured e name = projr (observe e name (behaviors_at e name))"

definition slot :: "'v Experiment \<Rightarrow> string \<times> bool \<Rightarrow> 'v Observation" where
  "slot e s = (if runConcurrently e then res_obs (projr (launch e s)) else captured e (fst s))"

text \<open>The observation that a goroutine builds when its context is done first.\<close>

definition timed_out :: "string \<Rightarrow> 'v Observation" where
  "timed_out behaviorName =
     \<lparr>Observation.Experiment = None, Observation.Name = behaviorName, Value = None,
      Observation.Err = None\<rparr>"

text \<open>
  The operation errors of a run, by the place where they are appended: before the
  behaviors run, while the results are collected, and after the publish sink has returned.
\<close>

definition before_errors :: "'v Experiment \<Rightarrow> ResultError list" where
  "before_errors e =
     (case beforeRun e of Some err \<Rightarrow> [resultErr e ''before_run'' err] | None \<Rightarrow> [])"

definition wait_errors :: "'v Experiment \<Rightarrow> (string \<times> bool) list \<Rightarrow> ResultError list" where
  "wait_errors e sched =
     (if runConcurrently e
      then concat (map (\<lambda>s. timeout_errors e (projr (launch e s))) sched) else [])"

definition publish_errors :: "'v Experiment \<Rightarrow> 'v Result \<Rightarrow> ResultError list" where
  "publish_errors e r =
     (case publisher e r of Some err \<Rightarrow> [resultErr e ''publish'' err] | None \<Rightarrow> [])"

text \<open>
  The names of the candidates in the order of registration, and the names of the
  observations in \<^verbatim>\<open>Candidates\<close> of the result of a run.
\<close>

definition registered_candidates :: "'v Experiment \<Rightarrow> string \<Rightarrow> string list" where
  "registered_candidates e name = filter (\<lambda>b. b \<noteq> name) (map fst (behaviors e))"

definition candidate_names :: "panic + 'v RunTrace \<Rightarrow> string option list" where
  "candidate_names out =
     (case out of
        Inl p \<Rightarrow> []
      | Inr t \<Rightarrow> map (map_option Observation.Name) (Candidates (returned t)))"

section \<open>Example experiments\<close>

text \<open>
  A control that returns 1 and two candidates, \<open>a\<close> returning 2 and \<open>b\<close> returning 1,
  registered in this order and compared by equality. In the example schedule \<open>b\<close> comes
  first, then the control, then \<open>a\<close>, whose context is done before it completes. The
  names of the examples are made of letters, which \<^verbatim>\<open>%q\<close> puts between double quotes as
  they are.
\<close>

definition quote_letters :: "string \<Rightarrow> string" where
  "quote_letters s = CHR 0x22 # s @ [CHR 0x22]"

definition same_value :: "int valueFunc" where
  "same_value cv dv = (cv = dv, None)"

definition failing_compare :: "int valueFunc" where
  "failing_compare cv dv = (True, Some (CallerError 7 ''compare failed''))"

definition never_ignore :: "int valueFunc" where
  "never_ignore cv dv = (False, None)"

definition always_ignore :: "int valueFunc" where
  "always_ignore cv dv = (True, None)"

definition failing_ignore :: "int valueFunc" where
  "failing_ignore cv dv = (False, Some (CallerError 8 ''ignore failed''))"

definition failing_publisher :: "int Result \<Rightarrow> error option" where
  "failing_publisher r = Some (CallerError 9 ''publish failed'')"

definition example_experiment :: "int Experiment" where
  "example_experiment =
     \<lparr>self = 1, fmt_q = quote_letters, Name = ''example'', ErrorOnMismatches = False,
      behaviors = [(''control'', Some (Returns (Some 1) None)),
                   (''a'', Some (Returns (Some 2) None)),
                   (''b'', Some (Returns (Some 1) None))],
      comparator = same_value, ignores = [],
      runConcurrently = False, timeout = None, beforeRun = None,
      publisher = (\<lambda>r. None)\<rparr>"

definition concurrent_experiment :: "int Experiment" where
  "concurrent_experiment = example_experiment\<lparr>runConcurrently := True, timeout := Some 500\<rparr>"

definition failing_sinks_experiment :: "int Experiment" where
  "failing_sinks_experiment =
     example_experiment\<lparr>beforeRun := Some (CallerError 4 ''before failed''),
                         publisher := failing_publisher\<rparr>"

definition failing_candidates :: "(string \<times> int behaviorFunc) list" where
  "failing_candidates =
     [(''control'', Some (Returns (Some 1) None)),
      (''a'', Some (Returns None (Some (CallerError 5 ''candidate failed'')))),
      (''b'', None)]"

definition agreeing_candidates :: "(string \<times> int behaviorFunc) list" where
  "agreeing_candidates =
     [(''control'', Some (Returns (Some 1) None)),
      (''a'', Some (Returns (Some 1) None)),
      (''b'', Some (Returns (Some 1) None))]"

definition panicking_candidates :: "(string \<times> int behaviorFunc) list" where
  "panicking_candidates =
     [(''control'', Some (Returns (Some 1) None)),
      (''a'', Some Panics),
      (''b'', Some (Returns (Some 1) None))]"

definition example_schedule :: "(string \<times> bool) list" where
  "example_schedule = [(''b'', False), (''control'', False), (''a'', True)]"

definition example_observation :: "string \<Rightarrow> int option \<Rightarrow> error option \<Rightarrow> int Observation" where
  "example_observation name v err =
     \<lparr>Observation.Experiment = Some 1, Observation.Name = name, Value = v,
      Observation.Err = err\<rparr>"

definition empty_result :: "int Result" where
  "empty_result =
     \<lparr>Result.Experiment = Some 1, Control = None, Observations = [], Candidates = [],
      Ignored = [], Mismatched = [], Errors = []\<rparr>"

section \<open>One candidate\<close>

lemma ignoring_range_shape:
  "ignoring_range ps cv dv = (True, None) \<or> (\<exists>x. ignoring_range ps cv dv = (False, x))"
  by (induction ps) (auto split: prod.splits option.splits)

lemma ignoring_range_prefix:
  "\<forall>q \<in> set pre. q cv dv = (False, None) \<Longrightarrow>
     ignoring_range (pre @ rest) cv dv = ignoring_range rest cv dv"
  by (induction pre) auto

lemma processObservation_unchanged [simp]:
  "Control (processObservation e r control candidate) = Control r"
  "Candidates (processObservation e r control candidate) = Candidates r"
  "Observations (processObservation e r control candidate) = Observations r"
  "Result.Experiment (processObservation e r control candidate) = Result.Experiment r"
  by (auto simp add: processObservation_def Let_def split: prod.splits option.splits)

lemma processObservation_Ignored:
  "Ignored (processObservation e r control candidate) =
     Ignored r @ (if is_ignored e control candidate then [candidate] else [])"
  using ignoring_range_shape [of "ignores e" "Value control" "Value candidate"]
  by (auto simp add: processObservation_def Let_def is_ignored_def matched_def ignoring_def
      split: prod.splits option.splits)

lemma processObservation_Mismatched:
  "Mismatched (processObservation e r control candidate) =
     Mismatched r @ (if is_mismatched e control candidate then [candidate] else [])"
  using ignoring_range_shape [of "ignores e" "Value control" "Value candidate"]
  by (auto simp add: processObservation_def Let_def is_mismatched_def matched_def ignoring_def
      split: prod.splits option.splits)

lemma processObservation_Errors:
  "Errors (processObservation e r control candidate) =
     Errors r @ process_errors e control candidate"
  by (auto simp add: processObservation_def Let_def process_errors_def matched_def
      split: prod.splits option.splits)

lemma matching_ignores_irrelevant [simp]:
  "matching (e\<lparr>ignores := ps\<rparr>) control candidate = matching e control candidate"
  by (simp add: matching_def)

lemma resultErr_ignores_irrelevant [simp]:
  "resultErr (e\<lparr>ignores := ps\<rparr>) operation err = resultErr e operation err"
  by (simp add: resultErr_def)

lemma processObservation_cong:
  assumes "matching e' control candidate = matching e control candidate"
    and "ignoring e' control candidate = ignoring e control candidate"
    and "resultErr e' = resultErr e"
  shows "processObservation e' r control candidate = processObservation e r control candidate"
  unfolding processObservation_def assms ..

section \<open>The iterations inside Run\<close>

lemma present_map_Some [simp]: "present (map Some xs) = xs"
  by (induction xs) (simp_all add: present_def)

lemma fill_slot:
  assumes "i < length xs"
  shows "take (Suc i) (xs[i := y]) @ ys @ drop (Suc (i + n)) (xs[i := y])
           = take i xs @ (y # ys) @ drop (i + Suc n) xs"
  using assms by (simp add: take_Suc_conv_app_nth)

lemma observe_registered:
  "observe e name (behaviors_at e name) =
     (if behaviors_at e name = Some Panics then Inl BehaviorPanic else Inr (captured e name))"
  by (simp add: observe_def captured_def Let_def split: option.splits call.splits)

lemma observe_Panics [simp]: "observe e name (Some Panics) = Inl BehaviorPanic"
  by (simp add: observe_def)

lemma captured_Name [simp]:
  "behaviors_at e name \<noteq> Some Panics \<Longrightarrow> Observation.Name (captured e name) = name"
  by (simp add: observe_def captured_def Let_def split: option.splits call.splits)

lemma run_sequential_char:
  assumes "Control r = Some ctl"
    and "i + length (filter (\<lambda>b. b \<noteq> name) names) \<le> length (Candidates r)"
    and "length (Observations r) = Suc (length (Candidates r))"
    and "cs = map (captured e) (filter (\<lambda>b. b \<noteq> name) names)"
    and "\<forall>b \<in> set names. b \<noteq> name \<longrightarrow> behaviors_at e b \<noteq> Some Panics"
  shows "\<exists>r'. run_sequential e name names i r = Inr r' \<and>
           Control r' = Some ctl \<and>
           Result.Experiment r' = Result.Experiment r \<and>
           Candidates r' = take i (Candidates r) @ map Some cs @ drop (i + length cs) (Candidates r) \<and>
           length (Observations r') = length (Observations r) \<and>
           Ignored r' = Ignored r @ filter (is_ignored e ctl) cs \<and>
           Mismatched r' = Mismatched r @ filter (is_mismatched e ctl) cs \<and>
           Errors r' = Errors r @ concat (map (process_errors e ctl) cs)"
  using assms
proof (induction names arbitrary: i r cs)
  case Nil
  then show ?case by simp
next
  case (Cons bname rest)
  show ?case
  proof (cases "bname = name")
    case True
    then show ?thesis using Cons.IH [of r i cs] Cons.prems by simp
  next
    case False
    define c where "c = captured e bname"
    define cs' where "cs' = map (captured e) (filter (\<lambda>b. b \<noteq> name) rest)"
    have obs: "observe e bname (behaviors_at e bname) = Inr c"
      using False Cons.prems(5) by (simp add: observe_registered c_def)
    have p5: "\<forall>b \<in> set rest. b \<noteq> name \<longrightarrow> behaviors_at e b \<noteq> Some Panics"
      using Cons.prems(5) by simp
    define r2 where "r2 = r\<lparr>Candidates := (Candidates r)[i := Some c],
                            Observations := (Observations r)[Suc i := Some c]\<rparr>"
    define r3 where "r3 = processObservation e r2 ctl c"
    have cs: "cs = c # cs'"
      using False Cons.prems(4) by (simp add: c_def cs'_def)
    have i: "i < length (Candidates r)" and i1: "Suc i < length (Observations r)"
      using False Cons.prems(2,3) by simp_all
    have unfold: "run_sequential e name (bname # rest) i r = run_sequential e name rest (Suc i) r3"
      using False i i1 Cons.prems(1)
      by (simp add: obs Let_def r2_def r3_def)
    have p1: "Control r3 = Some ctl"
      using Cons.prems(1) by (simp add: r3_def r2_def)
    have p2: "Suc i + length (filter (\<lambda>b. b \<noteq> name) rest) \<le> length (Candidates r3)"
      using False Cons.prems(2) by (simp add: r3_def r2_def)
    have p3: "length (Observations r3) = Suc (length (Candidates r3))"
      using Cons.prems(3) by (simp add: r3_def r2_def)
    from Cons.IH [OF p1 p2 p3 cs'_def p5]
    obtain r' where r': "run_sequential e name rest (Suc i) r3 = Inr r'"
      "Control r' = Some ctl" "Result.Experiment r' = Result.Experiment r3"
      "Candidates r' = take (Suc i) (Candidates r3) @ map Some cs' @
                         drop (Suc i + length cs') (Candidates r3)"
      "length (Observations r') = length (Observations r3)"
      "Ignored r' = Ignored r3 @ filter (is_ignored e ctl) cs'"
      "Mismatched r' = Mismatched r3 @ filter (is_mismatched e ctl) cs'"
      "Errors r' = Errors r3 @ concat (map (process_errors e ctl) cs')"
      by blast
    have c3: "Candidates r3 = (Candidates r)[i := Some c]"
      by (simp add: r3_def r2_def)
    have "Candidates r' = take i (Candidates r) @ map Some cs @ drop (i + length cs) (Candidates r)"
      using fill_slot [OF i, of "Some c" "map Some cs'" "length cs'"]
      by (simp add: r'(4) c3 cs)
    moreover have "Result.Experiment r' = Result.Experiment r"
      by (simp add: r'(3) r3_def r2_def)
    moreover have "length (Observations r') = length (Observations r)"
      by (simp add: r'(5) r3_def r2_def)
    moreover have "Ignored r' = Ignored r @ filter (is_ignored e ctl) cs"
      by (simp add: r'(6) r3_def r2_def cs processObservation_Ignored)
    moreover have "Mismatched r' = Mismatched r @ filter (is_mismatched e ctl) cs"
      by (simp add: r'(7) r3_def r2_def cs processObservation_Mismatched)
    moreover have "Errors r' = Errors r @ concat (map (process_errors e ctl) cs)"
      by (simp add: r'(8) r3_def r2_def cs processObservation_Errors)
    ultimately show ?thesis
      using unfold r'(1,2) by simp
  qed
qed

lemma classify_char:
  assumes "Control r = Some ctl"
  shows "\<exists>r'. classify e cs r = Inr r' \<and>
           Control r' = Some ctl \<and>
           Result.Experiment r' = Result.Experiment r \<and>
           Candidates r' = Candidates r \<and>
           Observations r' = Observations r \<and>
           Ignored r' = Ignored r @ filter (is_ignored e ctl) (present cs) \<and>
           Mismatched r' = Mismatched r @ filter (is_mismatched e ctl) (present cs) \<and>
           Errors r' = Errors r @ concat (map (process_errors e ctl) (present cs))"
  using assms
proof (induction cs arbitrary: r)
  case Nil
  then show ?case by (simp add: present_def)
next
  case (Cons x cs)
  show ?case
  proof (cases x)
    case None
    then show ?thesis using Cons.IH [OF Cons.prems] by (simp add: present_def)
  next
    case (Some c)
    have "Control (processObservation e r ctl c) = Some ctl"
      using Cons.prems by simp
    from Cons.IH [OF this] show ?thesis
      using Some Cons.prems
      by (auto simp add: present_def processObservation_Ignored processObservation_Mismatched
          processObservation_Errors)
  qed
qed

lemma collect_char:
  assumes "i + length (filter (\<lambda>x. res_name x \<noteq> name) rs) \<le> length (Candidates r)"
    and "length (Observations r) = Suc (length (Candidates r))"
    and "cs = map res_obs (filter (\<lambda>x. res_name x \<noteq> name) rs)"
  shows "\<exists>r'. collect e name rs i r = Inr r' \<and>
           Control r' = (case filter (\<lambda>x. res_name x = name) rs of
                           [] \<Rightarrow> Control r | x # xs \<Rightarrow> Some (res_obs (last (x # xs)))) \<and>
           Result.Experiment r' = Result.Experiment r \<and>
           Candidates r' = take i (Candidates r) @ map Some cs @ drop (i + length cs) (Candidates r) \<and>
           length (Observations r') = length (Observations r) \<and>
           Ignored r' = Ignored r \<and>
           Mismatched r' = Mismatched r \<and>
           Errors r' = Errors r @ concat (map (timeout_errors e) rs)"
  using assms
proof (induction rs arbitrary: i r cs)
  case Nil
  then show ?case by simp
next
  case (Cons res rest)
  obtain rname obs rerr where res: "res = observationResult rname obs rerr"
    by (cases res)
  define r1 where "r1 = (case rerr of
                  Some err \<Rightarrow> r\<lparr>Errors := Errors r @ [resultErr e ''timeout'' err]\<rparr>
                | None \<Rightarrow> r)"
  have r1: "Control r1 = Control r" "Candidates r1 = Candidates r"
    "Observations r1 = Observations r" "Ignored r1 = Ignored r" "Mismatched r1 = Mismatched r"
    "Result.Experiment r1 = Result.Experiment r"
    "Errors r1 = Errors r @ timeout_errors e res"
    by (simp_all add: r1_def res timeout_errors_def split: option.splits)
  define cs' where "cs' = map res_obs (filter (\<lambda>x. res_name x \<noteq> name) rest)"
  show ?case
  proof (cases "rname = name")
    case True
    define r2 where "r2 = r1\<lparr>Control := Some obs, Observations := (Observations r1)[0 := Some obs]\<rparr>"
    have ne: "Observations r \<noteq> []"
      using Cons.prems(2) by auto
    have unfold: "collect e name (res # rest) i r = collect e name rest i r2"
      using True ne by (simp add: res r1_def [symmetric] r1 r2_def Let_def)
    have p1: "i + length (filter (\<lambda>x. res_name x \<noteq> name) rest) \<le> length (Candidates r2)"
      using True Cons.prems(1) by (simp add: r2_def r1 res)
    have p2: "length (Observations r2) = Suc (length (Candidates r2))"
      using Cons.prems(2) by (simp add: r2_def r1)
    have cs: "cs = cs'"
      using True Cons.prems(3) by (simp add: cs'_def res)
    from Cons.IH [OF p1 p2 cs'_def] show ?thesis
      unfolding unfold using True
      by (auto simp add: r2_def r1 res cs split: list.splits)
  next
    case False
    define r2 where "r2 = r1\<lparr>Candidates := (Candidates r1)[i := Some obs],
                             Observations := (Observations r1)[i + 1 := Some obs]\<rparr>"
    have i: "i < length (Candidates r)"
      using False Cons.prems(1) by (simp add: res)
    have unfold: "collect e name (res # rest) i r = collect e name rest (Suc i) r2"
      using False i Cons.prems(2) by (simp add: res r1_def [symmetric] r1 r2_def Let_def)
    have p1: "Suc i + length (filter (\<lambda>x. res_name x \<noteq> name) rest) \<le> length (Candidates r2)"
      using False Cons.prems(1) by (simp add: r2_def r1 res)
    have p2: "length (Observations r2) = Suc (length (Candidates r2))"
      using Cons.prems(2) by (simp add: r2_def r1)
    have cs: "cs = obs # cs'"
      using False Cons.prems(3) by (simp add: cs'_def res)
    from Cons.IH [OF p1 p2 cs'_def]
    obtain r' where r': "collect e name rest (Suc i) r2 = Inr r'"
      "Control r' = (case filter (\<lambda>x. res_name x = name) rest of
                           [] \<Rightarrow> Control r2 | x # xs \<Rightarrow> Some (res_obs (last (x # xs))))"
      "Result.Experiment r' = Result.Experiment r2"
      "Candidates r' = take (Suc i) (Candidates r2) @ map Some cs' @
                         drop (Suc i + length cs') (Candidates r2)"
      "length (Observations r') = length (Observations r2)"
      "Ignored r' = Ignored r2" "Mismatched r' = Mismatched r2"
      "Errors r' = Errors r2 @ concat (map (timeout_errors e) rest)"
      by blast
    have "Candidates r' = take i (Candidates r) @ map Some cs @ drop (i + length cs) (Candidates r)"
      using fill_slot [OF i, of "Some obs" "map Some cs'" "length cs'"]
      by (simp add: r'(4) r2_def r1 cs)
    moreover have "Control r' = (case filter (\<lambda>x. res_name x = name) (res # rest) of
                           [] \<Rightarrow> Control r | x # xs \<Rightarrow> Some (res_obs (last (x # xs))))"
      using False by (simp add: r'(2) r2_def r1 res split: list.splits)
    moreover have "Result.Experiment r' = Result.Experiment r"
      "length (Observations r') = length (Observations r)"
      "Ignored r' = Ignored r" "Mismatched r' = Mismatched r"
      "Errors r' = Errors r @ concat (map (timeout_errors e) (res # rest))"
      by (simp_all add: r' r2_def r1)
    ultimately show ?thesis
      unfolding unfold using r'(1) by simp
  qed
qed

section \<open>A whole run\<close>

text \<open>
  With a registry whose keys are distinct, a schedule that names each key once, a control
  that is registered and awaited calls that return, \<^verbatim>\<open>Run\<close> does not panic, and every field
  of its result is determined by the schedule.
\<close>

lemma timed_out_fields [simp]:
  "Observation.Name (timed_out bname) = bname"
  "Value (timed_out bname) = None"
  "Observation.Err (timed_out bname) = None"
  "Observation.Experiment (timed_out bname) = None"
  by (simp_all add: timed_out_def)

lemma launch_cases:
  "launch e (bname, flag) =
     (if flag \<and> timeout e \<noteq> None
      then Inr (observationResult bname (timed_out bname) (Some DeadlineExceeded))
      else if behaviors_at e bname = Some Panics then Inl GoroutinePanic
      else Inr (observationResult bname (captured e bname) None))"
  by (simp add: launch_def observe_registered timed_out_def)

lemma launch_returns:
  assumes "runConcurrently e"
    and "abandoned e (snd s) \<or> behaviors_at e (fst s) \<noteq> Some Panics"
  shows "launch e s = Inr (projr (launch e s))"
    and "res_name (projr (launch e s)) = fst s"
  using assms by (cases s; auto simp add: launch_cases abandoned_def)+

lemma slot_cases:
  assumes "abandoned e flag \<or> behaviors_at e bname \<noteq> Some Panics"
  shows "slot e (bname, flag) = (if abandoned e flag then timed_out bname else captured e bname)"
  using assms by (auto simp add: slot_def launch_cases abandoned_def)

lemma slot_Name:
  assumes "abandoned e (snd s) \<or> behaviors_at e (fst s) \<noteq> Some Panics"
  shows "Observation.Name (slot e s) = fst s"
  using assms by (cases s) (auto simp add: slot_cases)

lemma arrivals_all:
  "\<forall>x \<in> set xs. f x = Inr (g x) \<Longrightarrow> arrivals (map f xs) = Inr (map g xs)"
  by (induction xs) simp_all

lemma same_keys_same_length:
  assumes "distinct (map fst xs)" and "distinct (map fst ys)"
    and "set (map fst xs) = set (map fst ys)"
  shows "length xs = length ys"
proof -
  have "length (map fst xs) = card (set (map fst xs))"
    using assms(1) by (simp only: distinct_card)
  also have "\<dots> = card (set (map fst ys))"
    by (simp only: assms(3))
  also have "\<dots> = length (map fst ys)"
    using assms(2) by (simp only: distinct_card)
  finally show ?thesis by simp
qed

lemma only_entry:
  "distinct (map fst xs) \<Longrightarrow> (k, v) \<in> set xs \<Longrightarrow> filter (\<lambda>s. fst s = k) xs = [(k, v)]"
proof (induction xs)
  case Nil
  then show ?case by simp
next
  case (Cons x xs)
  show ?case
  proof (cases "x = (k, v)")
    case True
    have "filter (\<lambda>s. fst s = k) xs = []"
      using Cons.prems(1) True by (auto simp add: filter_empty_conv)
    then show ?thesis using True by simp
  next
    case False
    then have "fst x \<noteq> k"
      using Cons.prems by (cases x) force
    then show ?thesis using Cons False by auto
  qed
qed

lemma others_length:
  assumes "distinct (map fst xs)" and "(k, v) \<in> set xs"
  shows "Suc (length (filter (\<lambda>s. fst s \<noteq> k) xs)) = length xs"
proof -
  have "length (filter (\<lambda>s. fst s = k) xs) + length (filter (\<lambda>s. \<not> fst s = k) xs) = length xs"
    by (rule sum_length_filter_compl)
  then show ?thesis
    by (simp add: only_entry [OF assms])
qed

lemma Run_char:
  fixes e :: "'v Experiment"
  assumes "registry_ok e" and "schedule_ok e sched" and "(name, flag) \<in> set sched"
    and "calls_return e sched"
    and "ctl = slot e (name, flag)"
    and "cs = map (slot e) (filter (\<lambda>s. fst s \<noteq> name) sched)"
  shows "\<exists>r. Run e name sched = Inr (finish e r) \<and>
           Control r = Some ctl \<and>
           Result.Experiment r = Some (self e) \<and>
           Candidates r = map Some cs \<and>
           Ignored r = filter (is_ignored e ctl) cs \<and>
           Mismatched r = filter (is_mismatched e ctl) cs \<and>
           Errors r = before_errors e @ wait_errors e sched @
                        concat (map (process_errors e ctl) cs)"
proof -
  define n where "n = length (behaviors e)"
  define r0 :: "'v Result" where
    "r0 = \<lparr>Result.Experiment = Some (self e), Control = None, Observations = replicate n None,
           Candidates = replicate (n - 1) None, Ignored = [], Mismatched = [],
           Errors = before_errors e\<rparr>"
  have dist: "distinct (map fst sched)"
    using assms(2) by (simp add: schedule_ok_def)
  have len: "length sched = n"
    unfolding n_def using assms(1,2)
    by (intro same_keys_same_length) (simp_all add: registry_ok_def schedule_ok_def)
  have n: "Suc (length (filter (\<lambda>s. fst s \<noteq> name) sched)) = n"
    using others_length [OF dist assms(3)] len by simp
  then have pos: "n \<noteq> 0" by auto
  have lcs: "length cs = n - 1"
    using n by (auto simp add: assms(6))
  have awaited: "abandoned e (snd s) \<or> behaviors_at e (fst s) \<noteq> Some Panics"
    if "s \<in> set sched" for s
    using assms(4) that by (simp add: calls_return_def)
  have Run: "Run e name sched =
      (case (if \<not> runConcurrently e
             then (case observe e name (behaviors_at e name) of
                     Inl p \<Rightarrow> Inl p
                   | Inr control \<Rightarrow>
                       run_sequential e name (map fst sched) 0
                         (r0\<lparr>Control := Some control,
                             Observations := (Observations r0)[0 := Some control]\<rparr>))
             else (case arrivals (map (launch e) sched) of
                     Inl p \<Rightarrow> Inl p
                   | Inr results \<Rightarrow>
                       (case collect e name results 0 r0 of
                          Inl p \<Rightarrow> Inl p
                        | Inr r2 \<Rightarrow> classify e (Candidates r2) r2))) of
         Inl p \<Rightarrow> Inl p
       | Inr r3 \<Rightarrow> Inr (finish e r3))"
    using pos
    by (simp add: Run_def Let_def n_def [symmetric] r0_def before_errors_def
        split: option.splits sum.splits)
  show ?thesis
  proof (cases "runConcurrently e")
    case False
    define r1 where "r1 = r0\<lparr>Control := Some (captured e name),
        Observations := (Observations r0)[0 := Some (captured e name)]\<rparr>"
    have returns: "behaviors_at e b \<noteq> Some Panics" if "b \<in> set (map fst sched)" for b
      using awaited False that by (auto simp add: abandoned_def)
    have obs: "observe e name (behaviors_at e name) = Inr (captured e name)"
      using returns [of name] assms(3) by (force simp add: observe_registered)
    have ctl: "ctl = captured e name"
      using False by (simp add: assms(5) slot_def)
    have cs: "cs = map (captured e) (filter (\<lambda>b. b \<noteq> name) (map fst sched))"
      using False by (simp add: assms(6) slot_def filter_map comp_def)
    have p1: "Control r1 = Some ctl"
      by (simp add: r1_def ctl)
    have p2: "0 + length (filter (\<lambda>b. b \<noteq> name) (map fst sched)) \<le> length (Candidates r1)"
      using n by (simp add: r1_def r0_def filter_map comp_def)
    have p3: "length (Observations r1) = Suc (length (Candidates r1))"
      using pos by (simp add: r1_def r0_def)
    have p5: "\<forall>b \<in> set (map fst sched). b \<noteq> name \<longrightarrow> behaviors_at e b \<noteq> Some Panics"
      using returns by blast
    from run_sequential_char [OF p1 p2 p3 cs p5]
    obtain r' where r': "run_sequential e name (map fst sched) 0 r1 = Inr r'"
      "Control r' = Some ctl" "Result.Experiment r' = Result.Experiment r1"
      "Candidates r' = take 0 (Candidates r1) @ map Some cs @ drop (0 + length cs) (Candidates r1)"
      "Ignored r' = Ignored r1 @ filter (is_ignored e ctl) cs"
      "Mismatched r' = Mismatched r1 @ filter (is_mismatched e ctl) cs"
      "Errors r' = Errors r1 @ concat (map (process_errors e ctl) cs)"
      by blast
    have "Run e name sched = Inr (finish e r')"
      using False r'(1) by (simp add: Run obs r1_def [symmetric])
    moreover have "Candidates r' = map Some cs"
      by (simp add: r'(4) lcs r1_def r0_def)
    moreover have "Errors r' = before_errors e @ wait_errors e sched @
                        concat (map (process_errors e ctl) cs)"
      using False by (simp add: r'(7) r1_def r0_def wait_errors_def)
    ultimately show ?thesis
      using r'(2,3,5,6) by (intro exI [of _ r']) (simp add: r1_def r0_def)
  next
    case True
    define sent where "sent = (\<lambda>s. projr (launch e s))"
    define results where "results = map sent sched"
    have arrive: "arrivals (map (launch e) sched) = Inr results"
      unfolding results_def
      using launch_returns(1) [OF True awaited] by (intro arrivals_all) (simp add: sent_def)
    have names: "res_name (sent s) = fst s" if "s \<in> set sched" for s
      using launch_returns(2) [OF True awaited [OF that]] by (simp add: sent_def)
    have ctl: "ctl = res_obs (sent (name, flag))"
      using True by (simp add: assms(5) slot_def sent_def)
    have "filter (\<lambda>s. res_name (sent s) \<noteq> name) sched = filter (\<lambda>s. fst s \<noteq> name) sched"
      using names by (intro filter_cong) simp_all
    then have filt: "filter (\<lambda>x. res_name x \<noteq> name) results
                  = map sent (filter (\<lambda>s. fst s \<noteq> name) sched)"
      by (simp add: results_def filter_map comp_def)
    have cs: "cs = map res_obs (filter (\<lambda>x. res_name x \<noteq> name) results)"
      using True by (simp add: assms(6) slot_def filt sent_def comp_def)
    have p1: "0 + length (filter (\<lambda>x. res_name x \<noteq> name) results) \<le> length (Candidates r0)"
      using n by (simp add: filt r0_def)
    have p2: "length (Observations r0) = Suc (length (Candidates r0))"
      using pos by (simp add: r0_def)
    have "filter (\<lambda>s. res_name (sent s) = name) sched = filter (\<lambda>s. fst s = name) sched"
      using names by (intro filter_cong) simp_all
    then have the_control: "filter (\<lambda>x. res_name x = name) results = [sent (name, flag)]"
      by (simp add: results_def filter_map comp_def only_entry [OF dist assms(3)])
    from collect_char [OF p1 p2 cs, of e]
    obtain r2 where r2: "collect e name results 0 r0 = Inr r2"
      "Control r2 = Some ctl" "Result.Experiment r2 = Result.Experiment r0"
      "Candidates r2 = take 0 (Candidates r0) @ map Some cs @ drop (0 + length cs) (Candidates r0)"
      "Ignored r2 = Ignored r0" "Mismatched r2 = Mismatched r0"
      "Errors r2 = Errors r0 @ concat (map (timeout_errors e) results)"
      unfolding the_control by (auto simp add: ctl)
    have c2: "Candidates r2 = map Some cs"
      by (simp add: r2(4) lcs r0_def)
    from classify_char [OF r2(2), of e "Candidates r2"]
    obtain r' where r': "classify e (Candidates r2) r2 = Inr r'"
      "Control r' = Some ctl" "Result.Experiment r' = Result.Experiment r2"
      "Candidates r' = Candidates r2"
      "Ignored r' = Ignored r2 @ filter (is_ignored e ctl) (present (Candidates r2))"
      "Mismatched r' = Mismatched r2 @ filter (is_mismatched e ctl) (present (Candidates r2))"
      "Errors r' = Errors r2 @ concat (map (process_errors e ctl) (present (Candidates r2)))"
      by blast
    have "Run e name sched = Inr (finish e r')"
      using True r2(1) r'(1) by (simp add: Run arrive)
    moreover have "Errors r' = before_errors e @ wait_errors e sched @
                        concat (map (process_errors e ctl) cs)"
      using True
      by (simp add: r'(7) r2(7) c2 r0_def wait_errors_def results_def sent_def comp_def)
    ultimately show ?thesis
      using r'(2,3,4,5,6) by (intro exI [of _ r']) (simp add: r2(3,5,6) c2 r0_def)
  qed
qed

lemma finish_fields:
  "published (finish e r) = r"
  "Control (returned (finish e r)) = Control r"
  "Candidates (returned (finish e r)) = Candidates r"
  "Ignored (returned (finish e r)) = Ignored r"
  "Mismatched (returned (finish e r)) = Mismatched r"
  "Errors (returned (finish e r)) = Errors r @ publish_errors e r"
  "reported (finish e r) = (if Errors r @ publish_errors e r = [] then None
                            else Some (Errors r @ publish_errors e r))"
  by (simp_all add: finish_def publish_errors_def Let_def split: option.splits)

lemma finish_returned:
  "returned (finish e r) = (published (finish e r))\<lparr>Errors := Errors (returned (finish e r))\<rparr>"
  by (simp add: finish_def Let_def split: option.splits)

lemma behaviorNotFound_behaviors_update [simp]:
  "behaviorNotFound (e\<lparr>behaviors := bs\<rparr>) name = behaviorNotFound e name"
  by (simp add: behaviorNotFound_def)

lemma behaviors_at_update:
  assumes "map_of bs name = map_of (behaviors e) name"
  shows "behaviors_at (e\<lparr>behaviors := bs\<rparr>) name = behaviors_at e name"
  using assms by (simp add: behaviors_at_def)

lemma captured_behaviors_update:
  assumes "map_of bs name = map_of (behaviors e) name"
  shows "captured (e\<lparr>behaviors := bs\<rparr>) name = captured e name"
  using assms
  by (simp add: captured_def observe_def behaviors_at_def Let_def
      split: option.splits call.splits)

lemma distinct_slots:
  assumes "distinct (map fst xs)"
    and "\<forall>s \<in> set xs. abandoned e (snd s) \<or> behaviors_at e (fst s) \<noteq> Some Panics"
  shows "distinct (map (slot e) xs)"
proof -
  have eq: "map (\<lambda>s. Observation.Name (slot e s)) xs = map fst xs"
    using assms(2) by (intro map_cong) (simp_all add: slot_Name)
  have "distinct (map (\<lambda>s. Observation.Name (slot e s)) xs)"
    unfolding eq by (rule assms(1))
  then have "distinct (map Observation.Name (map (slot e) xs))"
    by (simp add: comp_def)
  then show ?thesis
    by (auto simp add: distinct_map dest: inj_on_imageI2)
qed

lemma run_error_operations:
  assumes "x \<in> set (before_errors e @ wait_errors e sched @
                      concat (map (process_errors e ctl) cs))"
  shows "Operation x \<in> {''before_run'', ''timeout'', ''compare'', ''ignore''}"
proof -
  have "Operation x = ''before_run''" if "x \<in> set (before_errors e)"
    using that by (auto simp add: before_errors_def resultErr_def split: option.splits)
  moreover have "Operation x = ''timeout''" if "x \<in> set (wait_errors e sched)"
    using that
    by (auto simp add: wait_errors_def timeout_errors_def resultErr_def
        split: option.splits if_splits)
  moreover have "Operation x = ''compare'' \<or> Operation x = ''ignore''"
    if "x \<in> set (process_errors e ctl c)" for c
    using that
    by (auto simp add: process_errors_def resultErr_def split: option.splits if_splits)
  ultimately show ?thesis
    using assms by auto
qed

text \<open>
  The two conditions are those of every run that returns: without a registered control
  the run panics on an index, and an awaited call that panics ends the run.
\<close>

lemma run_sequential_index_panic:
  assumes "i \<le> length (Candidates r)"
    and "length (Candidates r) < i + length (filter (\<lambda>b. b \<noteq> name) names)"
  shows "\<exists>p. run_sequential e name names i r = Inl p"
  using assms
proof (induction names arbitrary: i r)
  case Nil
  then show ?case by simp
next
  case (Cons bname rest)
  show ?case
  proof (cases "bname = name")
    case True
    then show ?thesis using Cons.IH [of i r] Cons.prems by simp
  next
    case False
    show ?thesis
    proof (cases "observe e bname (behaviors_at e bname)")
      case (Inl p)
      then show ?thesis using False by simp
    next
      case (Inr c)
      show ?thesis
      proof (cases "i < length (Candidates r) \<and> Suc i < length (Observations r) \<and> Control r \<noteq> None")
        case ok: True
        then obtain ctl where ctl: "Control r = Some ctl" by auto
        define r3 where "r3 = processObservation e
            (r\<lparr>Candidates := (Candidates r)[i := Some c],
               Observations := (Observations r)[Suc i := Some c]\<rparr>) ctl c"
        have "run_sequential e name (bname # rest) i r = run_sequential e name rest (Suc i) r3"
          using False Inr ok ctl by (simp add: Let_def r3_def)
        moreover have "\<exists>p. run_sequential e name rest (Suc i) r3 = Inl p"
          using False ok Cons.prems by (intro Cons.IH) (simp_all add: r3_def)
        ultimately show ?thesis by simp
      next
        case False
        then show ?thesis
          using \<open>bname \<noteq> name\<close> Inr by (auto simp add: Let_def not_less split: option.splits)
      qed
    qed
  qed
qed

lemma run_sequential_behavior_panic:
  assumes "b \<in> set names" and "b \<noteq> name" and "behaviors_at e b = Some Panics"
  shows "\<exists>p. run_sequential e name names i r = Inl p"
  using assms(1)
proof (induction names arbitrary: i r)
  case Nil
  then show ?case by simp
next
  case (Cons bname rest)
  show ?case
  proof (cases "bname = b")
    case True
    then show ?thesis using assms(2,3) by (simp add: observe_registered)
  next
    case False
    then have "b \<in> set rest" using Cons.prems by simp
    then have "\<exists>p. run_sequential e name rest j q = Inl p" for j q
      by (rule Cons.IH)
    then show ?thesis
      by (auto simp add: Let_def split: sum.splits option.splits)
  qed
qed

lemma collect_index_panic:
  assumes "i \<le> length (Candidates r)"
    and "length (Candidates r) < i + length (filter (\<lambda>x. res_name x \<noteq> name) rs)"
  shows "\<exists>p. collect e name rs i r = Inl p"
  using assms
proof (induction rs arbitrary: i r)
  case Nil
  then show ?case by simp
next
  case (Cons res rest)
  obtain rname obs rerr where res: "res = observationResult rname obs rerr"
    by (cases res)
  define r1 where "r1 = (case rerr of
                  Some err \<Rightarrow> r\<lparr>Errors := Errors r @ [resultErr e ''timeout'' err]\<rparr>
                | None \<Rightarrow> r)"
  have r1: "Candidates r1 = Candidates r" "Observations r1 = Observations r"
    by (simp_all add: r1_def split: option.splits)
  show ?case
  proof (cases "rname = name")
    case True
    show ?thesis
    proof (cases "Observations r = []")
      case True
      then show ?thesis using \<open>rname = name\<close> by (simp add: res r1_def [symmetric] r1 Let_def)
    next
      case False
      define r2 where "r2 = r1\<lparr>Control := Some obs, Observations := (Observations r1)[0 := Some obs]\<rparr>"
      have "collect e name (res # rest) i r = collect e name rest i r2"
        using True False by (simp add: res r1_def [symmetric] r1 r2_def Let_def)
      moreover have "\<exists>p. collect e name rest i r2 = Inl p"
        using True Cons.prems by (intro Cons.IH) (simp_all add: r2_def r1 res)
      ultimately show ?thesis by simp
    qed
  next
    case False
    show ?thesis
    proof (cases "i < length (Candidates r) \<and> Suc i < length (Observations r)")
      case ok: True
      define r2 where "r2 = r1\<lparr>Candidates := (Candidates r1)[i := Some obs],
                               Observations := (Observations r1)[i + 1 := Some obs]\<rparr>"
      have "collect e name (res # rest) i r = collect e name rest (Suc i) r2"
        using False ok by (simp add: res r1_def [symmetric] r1 r2_def Let_def)
      moreover have "\<exists>p. collect e name rest (Suc i) r2 = Inl p"
        using False ok Cons.prems by (intro Cons.IH) (simp_all add: r2_def r1 res)
      ultimately show ?thesis by simp
    next
      case bad: False
      then show ?thesis
        using False by (auto simp add: res r1_def [symmetric] r1 Let_def not_less)
    qed
  qed
qed

lemma arrivals_Inr:
  "arrivals xs = Inr ys \<Longrightarrow> xs = map Inr ys"
proof (induction xs arbitrary: ys)
  case Nil
  then show ?case by simp
next
  case (Cons x xs)
  then show ?case by (auto split: sum.splits)
qed

lemma arrivals_Inl:
  "Inl p \<in> set xs \<Longrightarrow> \<exists>q. arrivals xs = Inl q"
  by (induction xs) (auto split: sum.splits)

lemma Run_returns_iff:
  fixes e :: "'v Experiment"
  assumes "registry_ok e" and "schedule_ok e sched"
  shows "(\<exists>t. Run e name sched = Inr t)
           = (name \<in> fst ` set sched \<and> calls_return e sched)"
proof
  assume "name \<in> fst ` set sched \<and> calls_return e sched"
  then obtain flag where "(name, flag) \<in> set sched" and "calls_return e sched"
    by auto
  from Run_char [OF assms this refl refl] show "\<exists>t. Run e name sched = Inr t"
    by blast
next
  assume returns: "\<exists>t. Run e name sched = Inr t"
  define n where "n = length (behaviors e)"
  define r0 :: "'v Result" where
    "r0 = \<lparr>Result.Experiment = Some (self e), Control = None, Observations = replicate n None,
           Candidates = replicate (n - 1) None, Ignored = [], Mismatched = [],
           Errors = before_errors e\<rparr>"
  have len: "length sched = n"
    unfolding n_def using assms
    by (intro same_keys_same_length) (simp_all add: registry_ok_def schedule_ok_def)
  have pos: "n \<noteq> 0"
    using returns by (auto simp add: Run_def Let_def n_def)
  have Run: "Run e name sched =
      (case (if \<not> runConcurrently e
             then (case observe e name (behaviors_at e name) of
                     Inl p \<Rightarrow> Inl p
                   | Inr control \<Rightarrow>
                       run_sequential e name (map fst sched) 0
                         (r0\<lparr>Control := Some control,
                             Observations := (Observations r0)[0 := Some control]\<rparr>))
             else (case arrivals (map (launch e) sched) of
                     Inl p \<Rightarrow> Inl p
                   | Inr results \<Rightarrow>
                       (case collect e name results 0 r0 of
                          Inl p \<Rightarrow> Inl p
                        | Inr r2 \<Rightarrow> classify e (Candidates r2) r2))) of
         Inl p \<Rightarrow> Inl p
       | Inr r3 \<Rightarrow> Inr (finish e r3))"
    using pos
    by (simp add: Run_def Let_def n_def [symmetric] r0_def before_errors_def
        split: option.splits sum.splits)
  show "name \<in> fst ` set sched \<and> calls_return e sched"
  proof (cases "runConcurrently e")
    case False
    from returns False obtain control r' where
      obs: "observe e name (behaviors_at e name) = Inr control"
      and seq: "run_sequential e name (map fst sched) 0
                  (r0\<lparr>Control := Some control,
                      Observations := (Observations r0)[0 := Some control]\<rparr>) = Inr r'"
      by (auto simp add: Run split: sum.splits)
    have registered: "name \<in> fst ` set sched"
    proof (rule ccontr)
      assume "name \<notin> fst ` set sched"
      then have "filter (\<lambda>b. b \<noteq> name) (map fst sched) = map fst sched"
        by (auto simp add: filter_id_conv)
      then have "\<exists>p. run_sequential e name (map fst sched) 0
                  (r0\<lparr>Control := Some control,
                      Observations := (Observations r0)[0 := Some control]\<rparr>) = Inl p"
        using pos len by (intro run_sequential_index_panic) (simp_all add: r0_def)
      then show False using seq by simp
    qed
    have "behaviors_at e (fst s) \<noteq> Some Panics" if s: "s \<in> set sched" for s
    proof
      assume panics: "behaviors_at e (fst s) = Some Panics"
      show False
      proof (cases "fst s = name")
        case True
        then show ?thesis using panics obs by (simp add: observe_registered)
      next
        case False
        have "fst s \<in> set (map fst sched)" using s by simp
        from run_sequential_behavior_panic [OF this False panics] seq
        show ?thesis by (metis Inl_Inr_False)
      qed
    qed
    then show ?thesis
      using registered by (simp add: calls_return_def)
  next
    case True
    from returns True obtain results r2 where
      arrive: "arrivals (map (launch e) sched) = Inr results"
      and coll: "collect e name results 0 r0 = Inr r2"
      by (auto simp add: Run split: sum.splits)
    have sent: "map (launch e) sched = map Inr results"
      using arrive by (rule arrivals_Inr)
    have each: "launch e s = Inr (projr (launch e s))" if "s \<in> set sched" for s
    proof -
      have "launch e s \<in> set (map Inr results)"
        using that sent by (metis image_eqI set_map)
      then show ?thesis by auto
    qed
    have awaited: "abandoned e (snd s) \<or> behaviors_at e (fst s) \<noteq> Some Panics"
      if "s \<in> set sched" for s
      using each [OF that] True
      by (cases s) (auto simp add: launch_cases abandoned_def split: if_splits)
    have results: "results = map (\<lambda>s. projr (launch e s)) sched"
    proof -
      have "map projr (map (launch e) sched) = results"
        unfolding sent by (simp add: comp_def)
      then show ?thesis by (simp add: comp_def)
    qed
    have registered: "name \<in> fst ` set sched"
    proof (rule ccontr)
      assume absent: "name \<notin> fst ` set sched"
      have "filter (\<lambda>s. res_name (projr (launch e s)) \<noteq> name) sched = sched"
        using absent launch_returns(2) [OF True awaited]
        by (force simp add: filter_id_conv)
      then have "filter (\<lambda>x. res_name x \<noteq> name) results = results"
        by (simp add: results filter_map comp_def)
      then have "\<exists>p. collect e name results 0 r0 = Inl p"
        using pos len by (intro collect_index_panic) (simp_all add: r0_def results)
      then show False using coll by simp
    qed
    show ?thesis
      using registered awaited by (simp add: calls_return_def)
  qed
qed

section \<open>Facts about the examples\<close>

lemmas example_defs =
  example_experiment_def concurrent_experiment_def example_schedule_def example_observation_def
  failing_candidates_def agreeing_candidates_def panicking_candidates_def same_value_def

lemmas run_defs =
  Run_def Let_def launch_def observe_def behaviors_at_def processObservation_def matching_def
  ignoring_def finish_def resultErr_def behaviorNotFound_def

lemma example_ok:
  "registry_ok example_experiment" "schedule_ok example_experiment example_schedule"
  "registry_ok concurrent_experiment" "schedule_ok concurrent_experiment example_schedule"
  by (auto simp add: registry_ok_def schedule_ok_def example_defs)

lemma example_calls_return:
  "calls_return example_experiment example_schedule"
  "calls_return concurrent_experiment example_schedule"
  by (simp_all add: calls_return_def abandoned_def behaviors_at_def example_defs)

lemma example_members:
  "(''control'', False) \<in> set example_schedule" "(''a'', True) \<in> set example_schedule"
  by (simp_all add: example_schedule_def)

lemma example_control:
  "observe example_experiment ''control'' (behaviors_at example_experiment ''control'')
     = Inr (example_observation ''control'' (Some 1) None)"
  "observe concurrent_experiment ''control'' (behaviors_at concurrent_experiment ''control'')
     = Inr (example_observation ''control'' (Some 1) None)"
  by (simp_all add: observe_def behaviors_at_def example_defs)

lemma example_run:
  "Candidates (returned (projr (Run example_experiment ''control'' example_schedule)))
     = [Some (example_observation ''b'' (Some 1) None),
        Some (example_observation ''a'' (Some 2) None)]"
  "Mismatched (returned (projr (Run example_experiment ''control'' example_schedule)))
     = [example_observation ''a'' (Some 2) None]"
  "Control (returned (projr (Run example_experiment ''control'' example_schedule)))
     = Some (example_observation ''control'' (Some 1) None)"
  "Errors (published (projr (Run failing_sinks_experiment ''control'' example_schedule)))
     = [\<lparr>Operation = ''before_run'', ResultError.Experiment = ''example'',
         ResultError.Err = CallerError 4 ''before failed''\<rparr>]"
  "Mismatched (returned (projr (Run (example_experiment\<lparr>ErrorOnMismatches := True\<rparr>)
      ''control'' example_schedule)))
     = [example_observation ''a'' (Some 2) None]"
  by (simp_all add: failing_sinks_experiment_def example_defs run_defs)

text \<open>Without a registered control the run panics while it stores the last candidate.\<close>

lemma Run_without_control_example:
  "Run example_experiment ''missing'' example_schedule = Inl IndexOutOfRange \<and>
   Run concurrent_experiment ''missing'' example_schedule = Inl IndexOutOfRange"
  by (simp add: example_defs run_defs)

section \<open>The claims\<close>

text \<open>
  In the claims about a whole run, \<open>(name, flag) \<in> set sched\<close> says that the control is
  registered, and \<open>flag\<close> whether the control's own context was done before it completed;
  \<open>calls_return e sched\<close> says that the calls which the run awaits return. By
  \<open>Run_returns_iff\<close> these are the runs that return a \<^verbatim>\<open>Result\<close>.

  Claim C1, as the code has it. In a run whose awaited calls return, the control
  observation of the result depends on the control behavior only. Take two such runs with
  the same schedule whose registries have the same names and the same control behavior,
  and whose candidates return anything whatever: both runs return, and the \<^verbatim>\<open>Control\<close> of
  their results is the same observation. It is what \<^verbatim>\<open>observe\<close> captured from the control
  behavior (its value and its error), or the timed-out observation when the control's own
  context was done first; no value or error of a candidate enters it. When the experiment
  does not raise on mismatches, its caller receives the value and the error of that
  observation, in both runs. When it does, the caller receives them only if no candidate
  is mismatched, and otherwise a \<^verbatim>\<open>MismatchError\<close> around the \<^verbatim>\<open>Result\<close>, without a value.
\<close>

theorem control_independent_of_candidates:
  fixes e :: "'v Experiment"
  assumes "registry_ok e" and "schedule_ok e sched" and "(name, flag) \<in> set sched"
    and "map fst bs = map fst (behaviors e)"
    and "map_of bs name = map_of (behaviors e) name"
    and "calls_return e sched" and "calls_return (e\<lparr>behaviors := bs\<rparr>) sched"
  shows "\<exists>t t' ctl. Run e name sched = Inr t \<and>
           Run (e\<lparr>behaviors := bs\<rparr>) name sched = Inr t' \<and>
           Control (returned t) = Some ctl \<and> Control (returned t') = Some ctl \<and>
           (if runConcurrently e \<and> flag \<and> timeout e \<noteq> None then ctl = timed_out name
            else observe e name (behaviors_at e name) = Inr ctl) \<and>
           (name = controlBehavior \<and> \<not> ErrorOnMismatches e \<longrightarrow>
              Experiment_Run e sched
                = Inr (Value ctl, map_option ControlError (Observation.Err ctl)) \<and>
              Experiment_Run (e\<lparr>behaviors := bs\<rparr>) sched
                = Inr (Value ctl, map_option ControlError (Observation.Err ctl))) \<and>
           (name = controlBehavior \<and> ErrorOnMismatches e \<longrightarrow>
              Experiment_Run e sched
                = (if Mismatched (returned t) = []
                   then Inr (Value ctl, map_option ControlError (Observation.Err ctl))
                   else Inr (None, Some (MismatchError (returned t)))))"
proof -
  let ?e' = "e\<lparr>behaviors := bs\<rparr>"
  have ok1: "registry_ok ?e'" and ok2: "schedule_ok ?e' sched"
    using assms(1,2,4) by (simp_all add: registry_ok_def schedule_ok_def)
  from Run_char [OF assms(1,2,3,6) refl refl]
  obtain r where r: "Run e name sched = Inr (finish e r)"
    "Control r = Some (slot e (name, flag))"
    by blast
  from Run_char [OF ok1 ok2 assms(3,7) refl refl]
  obtain r' where r': "Run ?e' name sched = Inr (finish ?e' r')"
    "Control r' = Some (slot ?e' (name, flag))"
    by blast
  have at: "behaviors_at ?e' name = behaviors_at e name"
    by (rule behaviors_at_update [OF assms(5)])
  have awaited: "abandoned e flag \<or> behaviors_at e name \<noteq> Some Panics"
    using assms(3,6) by (force simp add: calls_return_def)
  then have awaited': "abandoned ?e' flag \<or> behaviors_at ?e' name \<noteq> Some Panics"
    by (simp add: at abandoned_def)
  have same: "slot ?e' (name, flag) = slot e (name, flag)"
    by (auto simp add: slot_cases [OF awaited] slot_cases [OF awaited']
        captured_behaviors_update [OF assms(5)] abandoned_def)
  define ctl where "ctl = slot e (name, flag)"
  have shape: "if runConcurrently e \<and> flag \<and> timeout e \<noteq> None then ctl = timed_out name
               else observe e name (behaviors_at e name) = Inr ctl"
    unfolding ctl_def slot_cases [OF awaited] using awaited
    by (auto simp add: abandoned_def observe_registered)
  have c: "Control (returned (finish e r)) = Some ctl"
    "Control (returned (finish ?e' r')) = Some ctl"
    by (simp_all add: finish_fields r(2) r'(2) same ctl_def)
  have caller: "Experiment_Run e sched
                  = (if ErrorOnMismatches e \<and> Mismatched (returned (finish e r)) \<noteq> []
                     then Inr (None, Some (MismatchError (returned (finish e r))))
                     else Inr (Value ctl, map_option ControlError (Observation.Err ctl)))"
    if "name = controlBehavior"
    using that r(1) c(1) by (simp add: Experiment_Run_def IsMismatched_def)
  have caller': "Experiment_Run ?e' sched
                  = Inr (Value ctl, map_option ControlError (Observation.Err ctl))"
    if "name = controlBehavior" and "\<not> ErrorOnMismatches e"
    using that r'(1) c(2) by (simp add: Experiment_Run_def)
  show ?thesis
    using r(1) r'(1) c shape caller caller'
    by (intro exI [of _ "finish e r"] exI [of _ "finish ?e' r'"] exI [of _ ctl]) simp
qed

theorem control_independent_of_candidates_witness:
  "registry_ok example_experiment \<and> schedule_ok example_experiment example_schedule \<and>
   calls_return example_experiment example_schedule \<and>
   calls_return (example_experiment\<lparr>behaviors := failing_candidates\<rparr>) example_schedule \<and>
   (\<exists>t t'. Run example_experiment ''control'' example_schedule = Inr t \<and>
      Run (example_experiment\<lparr>behaviors := failing_candidates\<rparr>) ''control'' example_schedule
        = Inr t' \<and>
      Control (returned t') = Control (returned t) \<and>
      Control (returned t) = Some (example_observation ''control'' (Some 1) None)) \<and>
   Experiment_Run example_experiment example_schedule = Inr (Some 1, None) \<and>
   Experiment_Run (example_experiment\<lparr>behaviors := failing_candidates\<rparr>) example_schedule
     = Inr (Some 1, None) \<and>
   (\<exists>t. Run (example_experiment\<lparr>ErrorOnMismatches := True\<rparr>) ''control'' example_schedule
          = Inr t \<and>
      Experiment_Run (example_experiment\<lparr>ErrorOnMismatches := True\<rparr>) example_schedule
        = Inr (None, Some (MismatchError (returned t))))"
proof -
  let ?loud = "example_experiment\<lparr>ErrorOnMismatches := True\<rparr>"
  have loud: "registry_ok ?loud" "schedule_ok ?loud example_schedule"
    "(''control'', False) \<in> set example_schedule"
    "map fst failing_candidates = map fst (behaviors ?loud)"
    "map_of failing_candidates ''control'' = map_of (behaviors ?loud) ''control''"
    "calls_return ?loud example_schedule"
    "calls_return (?loud\<lparr>behaviors := failing_candidates\<rparr>) example_schedule"
    by (auto simp add: registry_ok_def schedule_ok_def calls_return_def abandoned_def
        behaviors_at_def example_defs)
  have raises: "''control'' = controlBehavior \<and> ErrorOnMismatches ?loud"
    by (simp add: controlBehavior_def)
  from control_independent_of_candidates [OF loud]
  obtain u where u: "Run ?loud ''control'' example_schedule = Inr u"
    "Experiment_Run ?loud example_schedule
       = (if Mismatched (returned u) = []
          then Inr (Value (the (Control (returned u))),
                    map_option ControlError (Observation.Err (the (Control (returned u)))))
          else Inr (None, Some (MismatchError (returned u))))"
    using raises by auto
  have "Mismatched (returned u) \<noteq> []"
    using example_run(5) by (simp add: u(1))
  then have mismatch: "\<exists>t. Run ?loud ''control'' example_schedule = Inr t \<and>
      Experiment_Run ?loud example_schedule = Inr (None, Some (MismatchError (returned t)))"
    using u by simp
  have h4: "map fst failing_candidates = map fst (behaviors example_experiment)"
    by (simp add: example_defs)
  have h5: "map_of failing_candidates ''control'' = map_of (behaviors example_experiment) ''control''"
    by (simp add: example_defs)
  have h7: "calls_return (example_experiment\<lparr>behaviors := failing_candidates\<rparr>) example_schedule"
    by (simp add: calls_return_def abandoned_def behaviors_at_def example_defs)
  have seq: "\<not> runConcurrently example_experiment"
    and quiet: "\<not> ErrorOnMismatches example_experiment"
    and name: "''control'' = controlBehavior"
    by (simp_all add: example_defs controlBehavior_def)
  from control_independent_of_candidates
    [OF example_ok(1,2) example_members(1) h4 h5 example_calls_return(1) h7]
  obtain t t' ctl where t: "Run example_experiment ''control'' example_schedule = Inr t"
    "Run (example_experiment\<lparr>behaviors := failing_candidates\<rparr>) ''control'' example_schedule
       = Inr t'"
    "Control (returned t) = Some ctl" "Control (returned t') = Some ctl"
    "observe example_experiment ''control'' (behaviors_at example_experiment ''control'')
       = Inr ctl"
    "Experiment_Run example_experiment example_schedule
       = Inr (Value ctl, map_option ControlError (Observation.Err ctl))"
    "Experiment_Run (example_experiment\<lparr>behaviors := failing_candidates\<rparr>) example_schedule
       = Inr (Value ctl, map_option ControlError (Observation.Err ctl))"
    using seq quiet name by auto
  have ctl: "ctl = example_observation ''control'' (Some 1) None"
    using t(5) by (simp add: example_control)
  show ?thesis
    using t(1,2,3,4,6,7) example_ok(1,2) example_calls_return(1) h7 mismatch
    by (simp add: ctl example_observation_def)
qed

text \<open>
  Claim C1 as stated fails on its last clause. A candidate that panics is not recovered:
  in the sequential branch the panic leaves \<^verbatim>\<open>Run\<close> and reaches the caller, where the same
  experiment with a candidate that returns gives a result. And a divergence reaches the
  caller of an experiment that raises on mismatches: with candidates that agree with the
  control the caller receives the control's value, with a candidate that returns another
  value it receives a \<^verbatim>\<open>MismatchError\<close> and no value.
\<close>

theorem candidate_reaches_caller_counterexample:
  "\<not> isl (Run example_experiment ''control'' example_schedule) \<and>
   Run (example_experiment\<lparr>behaviors := panicking_candidates\<rparr>) ''control'' example_schedule
     = Inl BehaviorPanic \<and>
   Experiment_Run (example_experiment\<lparr>ErrorOnMismatches := True,
                                      behaviors := agreeing_candidates\<rparr>) example_schedule
     = Inr (Some 1, None) \<and>
   Experiment_Run (example_experiment\<lparr>ErrorOnMismatches := True\<rparr>) example_schedule
     = Inr (None, Some (MismatchError (returned (projr
         (Run (example_experiment\<lparr>ErrorOnMismatches := True\<rparr>) ''control''
            example_schedule)))))"
  by (simp add: Experiment_Run_def IsMismatched_def controlBehavior_def example_defs run_defs)


text \<open>
  Claim C2. \<^verbatim>\<open>matching\<close> on a control and a candidate observation: when neither carries
  an error the verdict is what the comparator returns on the two values; when both carry
  errors the verdict is the equality of the two texts \<^verbatim>\<open>Error()\<close>, whatever the comparator
  is, so the comparator is not called; when exactly one carries an error the verdict is
  false.
\<close>

theorem matching_verdict:
  "(Observation.Err control = None \<and> Observation.Err candidate = None \<longrightarrow>
      matching e control candidate = comparator e (Value control) (Value candidate)) \<and>
   (\<forall>cerr derr. Observation.Err control = Some cerr \<and> Observation.Err candidate = Some derr \<longrightarrow>
      (\<forall>cmp. matching (e\<lparr>comparator := cmp\<rparr>) control candidate
               = (Error cerr = Error derr, None))) \<and>
   ((Observation.Err control = None) \<noteq> (Observation.Err candidate = None) \<longrightarrow>
      matching e control candidate = (False, None))"
  by (auto simp add: matching_def split: option.splits)

theorem matching_verdict_witness:
  "matching example_experiment (example_observation ''control'' (Some 1) None)
      (example_observation ''a'' (Some 2) None) = (False, None) \<and>
   matching (example_experiment\<lparr>comparator := failing_compare\<rparr>)
      (example_observation ''control'' (Some 1) (Some (CallerError 1 ''ok'')))
      (example_observation ''a'' (Some 2) (Some (CallerError 2 ''ok''))) = (True, None) \<and>
   matching (example_experiment\<lparr>comparator := always_ignore\<rparr>)
      (example_observation ''control'' (Some 1) None)
      (example_observation ''a'' (Some 1) (Some (CallerError 2 ''try''))) = (False, None)"
  using matching_verdict [of "example_observation ''control'' (Some 1) None"
      "example_observation ''a'' (Some 2) None" example_experiment]
    matching_verdict [of "example_observation ''control'' (Some 1) (Some (CallerError 1 ''ok''))"
      "example_observation ''a'' (Some 2) (Some (CallerError 2 ''ok''))" example_experiment]
    matching_verdict [of "example_observation ''control'' (Some 1) None"
      "example_observation ''a'' (Some 1) (Some (CallerError 2 ''try''))"
      "example_experiment\<lparr>comparator := always_ignore\<rparr>"]
  by (simp add: example_observation_def example_experiment_def same_value_def)

text \<open>
  Claim C3, as the code has it. With \<open>n\<close> registered behaviors other than the control,
  \<^verbatim>\<open>Candidates\<close> has length \<open>n\<close> and every entry is filled, in both branches; the entries
  follow the schedule, not the registration: the order in which \<^verbatim>\<open>range e.behaviors\<close>
  yields the names in the sequential branch, the order in which the results arrive on
  \<^verbatim>\<open>resultChan\<close> in the concurrent one. The publish sink receives the same sequence.
\<close>

theorem candidates_follow_schedule:
  fixes e :: "'v Experiment"
  assumes "registry_ok e" and "schedule_ok e sched" and "(name, flag) \<in> set sched"
    and "calls_return e sched"
  shows "\<exists>t. Run e name sched = Inr t \<and>
           length (Candidates (returned t)) = length (filter (\<lambda>b. fst b \<noteq> name) (behaviors e)) \<and>
           Candidates (returned t) = map (\<lambda>s. Some (slot e s)) (filter (\<lambda>s. fst s \<noteq> name) sched) \<and>
           map (map_option Observation.Name) (Candidates (returned t))
             = map Some (filter (\<lambda>b. b \<noteq> name) (map fst sched)) \<and>
           Candidates (published t) = Candidates (returned t)"
proof -
  from Run_char [OF assms refl refl]
  obtain r where r: "Run e name sched = Inr (finish e r)"
    "Candidates r = map Some (map (slot e) (filter (\<lambda>s. fst s \<noteq> name) sched))"
    by blast
  have "name \<in> set (map fst (behaviors e))"
    using assms(2,3) by (force simp add: schedule_ok_def)
  then obtain b where b: "(name, b) \<in> set (behaviors e)"
    by auto
  have "Suc (length (filter (\<lambda>s. fst s \<noteq> name) sched)) = length sched"
    using assms(2,3) by (intro others_length) (simp_all add: schedule_ok_def)
  moreover have "Suc (length (filter (\<lambda>b. fst b \<noteq> name) (behaviors e))) = length (behaviors e)"
    using assms(1) b by (intro others_length) (simp_all add: registry_ok_def)
  moreover have "length sched = length (behaviors e)"
    using assms(1,2)
    by (intro same_keys_same_length) (simp_all add: registry_ok_def schedule_ok_def)
  ultimately have len: "length (filter (\<lambda>s. fst s \<noteq> name) sched)
                          = length (filter (\<lambda>b. fst b \<noteq> name) (behaviors e))"
    by simp
  have each: "\<forall>s \<in> set (filter (\<lambda>s. fst s \<noteq> name) sched).
                Observation.Name (slot e s) = fst s"
    using assms(4) by (simp add: calls_return_def slot_Name)
  have "map (map_option Observation.Name) (Candidates r)
          = map Some (filter (\<lambda>b. b \<noteq> name) (map fst sched))"
    unfolding r(2) using each by (auto simp add: comp_def filter_map)
  then show ?thesis
    using r len by (simp add: finish_fields comp_def)
qed

theorem candidates_follow_schedule_witness:
  "registry_ok concurrent_experiment \<and> schedule_ok concurrent_experiment example_schedule \<and>
   calls_return concurrent_experiment example_schedule \<and>
   (\<exists>t. Run concurrent_experiment ''control'' example_schedule = Inr t \<and>
      length (Candidates (returned t)) = 2 \<and>
      map (map_option Observation.Name) (Candidates (returned t)) = [Some ''b'', Some ''a''])"
proof -
  have n: "length (filter (\<lambda>b. fst b \<noteq> ''control'') (behaviors concurrent_experiment)) = 2"
    and s: "filter (\<lambda>b. b \<noteq> ''control'') (map fst example_schedule) = [''b'', ''a'']"
    by (simp_all add: example_defs)
  show ?thesis
    using candidates_follow_schedule
        [OF example_ok(3,4) example_members(1) example_calls_return(2)]
      example_ok(3,4) example_calls_return(2)
    by (auto simp add: n s)
qed

text \<open>
  Claim C3 as stated fails: with the candidates registered as \<open>a\<close>, then \<open>b\<close>, a run in
  which \<open>b\<close> is yielded or completes first lists \<open>b\<close> before \<open>a\<close>, in the concurrent branch
  and in the sequential one.
\<close>

theorem registration_order_counterexample:
  "registered_candidates concurrent_experiment ''control'' = [''a'', ''b''] \<and>
   candidate_names (Run concurrent_experiment ''control'' example_schedule)
     = [Some ''b'', Some ''a''] \<and>
   registered_candidates example_experiment ''control'' = [''a'', ''b''] \<and>
   candidate_names (Run example_experiment ''control'' example_schedule)
     = [Some ''b'', Some ''a'']"
  by (simp add: registered_candidates_def candidate_names_def example_defs run_defs)

text \<open>
  Claim C4, as the code has it. In the concurrent branch with a timeout, a behavior whose
  context is done before it completes has in its slot (\<^verbatim>\<open>Control\<close> for the control, an entry
  of \<^verbatim>\<open>Candidates\<close> otherwise) an observation that holds its name only: the value is nil and
  so is \<^verbatim>\<open>Err\<close>. The timeout is recorded in \<^verbatim>\<open>Errors\<close> alone, as an operation error with
  operation \<open>timeout\<close> around the error of the context. When the control completed in time,
  \<^verbatim>\<open>Control\<close> is the control's own observation.
\<close>

theorem timed_out_slot:
  fixes e :: "'v Experiment"
  assumes "registry_ok e" and "schedule_ok e sched" and "(name, flag) \<in> set sched"
    and "runConcurrently e" and "timeout e = Some d" and "(bname, True) \<in> set sched"
    and "calls_return e sched"
  shows "\<exists>t. Run e name sched = Inr t \<and>
           (if bname = name then Control (returned t) = Some (timed_out bname)
            else Some (timed_out bname) \<in> set (Candidates (returned t))) \<and>
           Value (timed_out bname :: 'v Observation) = None \<and>
           Observation.Err (timed_out bname :: 'v Observation) = None \<and>
           \<lparr>Operation = ''timeout'', ResultError.Experiment = Experiment.Name e,
            ResultError.Err = DeadlineExceeded\<rparr> \<in> set (Errors (returned t)) \<and>
           (\<not> flag \<longrightarrow>
              (\<exists>ctl. observe e name (behaviors_at e name) = Inr ctl \<and>
                     Control (returned t) = Some ctl))"
proof -
  from Run_char [OF assms(1,2,3,7) refl refl]
  obtain r where r: "Run e name sched = Inr (finish e r)"
    "Control r = Some (slot e (name, flag))"
    "Candidates r = map Some (map (slot e) (filter (\<lambda>s. fst s \<noteq> name) sched))"
    "Errors r = before_errors e @ wait_errors e sched @
       concat (map (process_errors e (slot e (name, flag)))
                 (map (slot e) (filter (\<lambda>s. fst s \<noteq> name) sched)))"
    by blast
  have gone: "slot e (bname, True) = timed_out bname"
    using assms(4,5) by (simp add: slot_cases abandoned_def)
  have dist: "distinct (map fst sched)"
    using assms(2) by (simp add: schedule_ok_def)
  have place: "if bname = name then Control r = Some (timed_out bname)
               else Some (timed_out bname) \<in> set (Candidates r)"
  proof (cases "bname = name")
    case True
    then have "flag"
      using dist assms(3,6) by (metis eq_key_imp_eq_value)
    then show ?thesis
      using True r(2) gone by simp
  next
    case False
    then have "(bname, True) \<in> set (filter (\<lambda>s. fst s \<noteq> name) sched)"
      using assms(6) by simp
    then have "slot e (bname, True) \<in> set (map (slot e) (filter (\<lambda>s. fst s \<noteq> name) sched))"
      by (simp only: set_map) (rule imageI)
    then show ?thesis
      using False by (simp add: r(3) gone image_iff)
  qed
  have "timeout_errors e (projr (launch e (bname, True))) =
          [\<lparr>Operation = ''timeout'', ResultError.Experiment = Experiment.Name e,
            ResultError.Err = DeadlineExceeded\<rparr>]"
    using assms(5) by (simp add: timeout_errors_def launch_cases resultErr_def)
  then have "\<lparr>Operation = ''timeout'', ResultError.Experiment = Experiment.Name e,
            ResultError.Err = DeadlineExceeded\<rparr> \<in> set (wait_errors e sched)"
    using assms(4,6) by (force simp add: wait_errors_def)
  then have err: "\<lparr>Operation = ''timeout'', ResultError.Experiment = Experiment.Name e,
            ResultError.Err = DeadlineExceeded\<rparr> \<in> set (Errors (returned (finish e r)))"
    by (simp add: finish_fields r(4))
  have ctl: "\<not> flag \<longrightarrow>
               (\<exists>ctl. observe e name (behaviors_at e name) = Inr ctl \<and> Control r = Some ctl)"
  proof
    assume "\<not> flag"
    then have "behaviors_at e name \<noteq> Some Panics"
      using assms(3,7) by (force simp add: calls_return_def abandoned_def)
    then show "\<exists>ctl. observe e name (behaviors_at e name) = Inr ctl \<and> Control r = Some ctl"
      using \<open>\<not> flag\<close> by (simp add: r(2) slot_cases abandoned_def observe_registered)
  qed
  show ?thesis
    using r(1) place err ctl by (simp add: finish_fields)
qed

theorem timed_out_slot_witness:
  "registry_ok concurrent_experiment \<and> schedule_ok concurrent_experiment example_schedule \<and>
   calls_return concurrent_experiment example_schedule \<and>
   (\<exists>t. Run concurrent_experiment ''control'' example_schedule = Inr t \<and>
      Some (timed_out ''a'') \<in> set (Candidates (returned t)) \<and>
      \<lparr>Operation = ''timeout'', ResultError.Experiment = ''example'',
       ResultError.Err = DeadlineExceeded\<rparr> \<in> set (Errors (returned t)) \<and>
      Control (returned t) = Some (example_observation ''control'' (Some 1) None))"
proof -
  have c: "runConcurrently concurrent_experiment"
    and d: "timeout concurrent_experiment = Some 500"
    and n: "Experiment.Name concurrent_experiment = ''example''"
    by (simp_all add: example_defs)
  show ?thesis
    using timed_out_slot
        [OF example_ok(3,4) example_members(1) c d example_members(2) example_calls_return(2)]
      example_ok(3,4) example_calls_return(2)
    by (auto simp add: example_control n)
qed

text \<open>
  Claim C4 as stated fails: in the example the candidate \<open>a\<close> has not completed when the
  timeout elapses, and the observation in its slot carries no error.
\<close>

theorem timed_out_observation_counterexample:
  "runConcurrently concurrent_experiment \<and> timeout concurrent_experiment = Some 500 \<and>
   example_schedule = [(''b'', False), (''control'', False), (''a'', True)] \<and>
   \<not> isl (Run concurrent_experiment ''control'' example_schedule) \<and>
   Candidates (returned (projr (Run concurrent_experiment ''control'' example_schedule)))
     = [Some (example_observation ''b'' (Some 1) None),
        Some \<lparr>Observation.Experiment = None, Observation.Name = ''a'', Value = None,
              Observation.Err = None\<rparr>]"
  by (simp add: example_defs run_defs)

text \<open>
  Claim C5. For a candidate that failed matching, the ignore predicates are tried in the
  order of \<^verbatim>\<open>e.ignores\<close>. Let \<open>p\<close> be the first predicate that does not return false
  without an error. If \<open>p\<close> returns true without an error, the candidate is appended to
  \<^verbatim>\<open>Ignored\<close> and no \<open>ignore\<close> error is recorded. If \<open>p\<close> returns an error, an operation
  error with operation \<open>ignore\<close> is appended to \<^verbatim>\<open>Errors\<close> and the candidate is appended to
  \<^verbatim>\<open>Mismatched\<close>, not to \<^verbatim>\<open>Ignored\<close>. In both cases the predicates after \<open>p\<close> are not
  evaluated: the result is the same as without them.
\<close>

theorem ignoring_first_decides:
  assumes "matching e control candidate \<noteq> (True, None)"
    and "ignores e = pre @ p # post"
    and "\<forall>q \<in> set pre. q (Value control) (Value candidate) = (False, None)"
    and "r' = processObservation e r control candidate"
    and "cmp_errs = (case snd (matching e control candidate) of
                       Some cerr \<Rightarrow> [resultErr e ''compare'' cerr] | None \<Rightarrow> [])"
  shows "(p (Value control) (Value candidate) = (True, None) \<longrightarrow>
            Ignored r' = Ignored r @ [candidate] \<and> Mismatched r' = Mismatched r \<and>
            Errors r' = Errors r @ cmp_errs \<and>
            r' = processObservation (e\<lparr>ignores := pre @ [p]\<rparr>) r control candidate) \<and>
         (\<forall>ok err. p (Value control) (Value candidate) = (ok, Some err) \<longrightarrow>
            Mismatched r' = Mismatched r @ [candidate] \<and> Ignored r' = Ignored r \<and>
            Errors r' = Errors r @ cmp_errs @
               [\<lparr>Operation = ''ignore'', ResultError.Experiment = Experiment.Name e,
                 ResultError.Err = err\<rparr>] \<and>
            r' = processObservation (e\<lparr>ignores := pre @ [p]\<rparr>) r control candidate)"
proof -
  let ?cv = "Value control" and ?dv = "Value candidate"
  have step: "ignoring e control candidate = ignoring_range (p # post) ?cv ?dv"
    using assms(2,3) by (simp add: ignoring_def ignoring_range_prefix)
  have step': "ignoring (e\<lparr>ignores := pre @ [p]\<rparr>) control candidate
                 = ignoring_range [p] ?cv ?dv"
    using assms(3) by (simp add: ignoring_def ignoring_range_prefix)
  have nm: "\<not> matched e control candidate"
    using assms(1) by (simp add: matched_def)
  have indep: "ignoring_range (p # post) ?cv ?dv = ignoring_range [p] ?cv ?dv
      \<Longrightarrow> r' = processObservation (e\<lparr>ignores := pre @ [p]\<rparr>) r control candidate"
    unfolding assms(4) using step step'
    by (intro processObservation_cong [symmetric]) (simp_all add: fun_eq_iff)
  show ?thesis
  proof (intro conjI impI allI)
    assume t: "p ?cv ?dv = (True, None)"
    then have ig: "ignoring e control candidate = (True, None)"
      using step by simp
    show "Ignored r' = Ignored r @ [candidate]"
      using nm ig by (simp add: assms(4) processObservation_Ignored is_ignored_def)
    show "Mismatched r' = Mismatched r"
      using nm ig by (simp add: assms(4) processObservation_Mismatched is_mismatched_def)
    show "Errors r' = Errors r @ cmp_errs"
      using nm ig by (simp add: assms(4,5) processObservation_Errors process_errors_def)
    show "r' = processObservation (e\<lparr>ignores := pre @ [p]\<rparr>) r control candidate"
      using t by (intro indep) simp
  next
    fix ok err
    assume t: "p ?cv ?dv = (ok, Some err)"
    then have ig: "ignoring e control candidate = (False, Some err)"
      using step by simp
    show "Mismatched r' = Mismatched r @ [candidate]"
      using nm ig by (simp add: assms(4) processObservation_Mismatched is_mismatched_def)
    show "Ignored r' = Ignored r"
      using nm ig by (simp add: assms(4) processObservation_Ignored is_ignored_def)
    show "Errors r' = Errors r @ cmp_errs @
               [\<lparr>Operation = ''ignore'', ResultError.Experiment = Experiment.Name e,
                 ResultError.Err = err\<rparr>]"
      using nm ig
      by (simp add: assms(4,5) processObservation_Errors process_errors_def resultErr_def)
    show "r' = processObservation (e\<lparr>ignores := pre @ [p]\<rparr>) r control candidate"
      using t by (intro indep) simp
  qed
qed

theorem ignoring_first_decides_witness:
  "Ignored (processObservation
      (example_experiment\<lparr>ignores := [never_ignore, always_ignore, failing_ignore]\<rparr>)
      empty_result (example_observation ''control'' (Some 1) None)
      (example_observation ''a'' (Some 2) None))
     = [example_observation ''a'' (Some 2) None] \<and>
   Mismatched (processObservation
      (example_experiment\<lparr>ignores := [never_ignore, failing_ignore, always_ignore]\<rparr>)
      empty_result (example_observation ''control'' (Some 1) None)
      (example_observation ''a'' (Some 2) None))
     = [example_observation ''a'' (Some 2) None] \<and>
   Errors (processObservation
      (example_experiment\<lparr>ignores := [never_ignore, failing_ignore, always_ignore]\<rparr>)
      empty_result (example_observation ''control'' (Some 1) None)
      (example_observation ''a'' (Some 2) None))
     = [\<lparr>Operation = ''ignore'', ResultError.Experiment = ''example'',
         ResultError.Err = CallerError 8 ''ignore failed''\<rparr>]"
proof -
  let ?ctl = "example_observation ''control'' (Some 1) None"
  let ?cand = "example_observation ''a'' (Some 2) None"
  let ?e1 = "example_experiment\<lparr>ignores := [never_ignore, always_ignore, failing_ignore]\<rparr>"
  let ?e2 = "example_experiment\<lparr>ignores := [never_ignore, failing_ignore, always_ignore]\<rparr>"
  have m1: "matching ?e1 ?ctl ?cand \<noteq> (True, None)"
    by (simp add: matching_def example_experiment_def example_observation_def same_value_def)
  have m2: "matching ?e2 ?ctl ?cand \<noteq> (True, None)"
    by (simp add: matching_def example_experiment_def example_observation_def same_value_def)
  have i1: "ignores ?e1 = [never_ignore] @ always_ignore # [failing_ignore]"
    by simp
  have i2: "ignores ?e2 = [never_ignore] @ failing_ignore # [always_ignore]"
    by simp
  have n: "\<forall>q \<in> set [never_ignore]. q (Value ?ctl) (Value ?cand) = (False, None)"
    by (simp add: never_ignore_def)
  have p1: "always_ignore (Value ?ctl) (Value ?cand) = (True, None)"
    by (simp add: always_ignore_def)
  have p2: "failing_ignore (Value ?ctl) (Value ?cand)
              = (False, Some (CallerError 8 ''ignore failed''))"
    by (simp add: failing_ignore_def)
  have a: "Ignored (processObservation ?e1 empty_result ?ctl ?cand)
             = Ignored empty_result @ [?cand]"
    using ignoring_first_decides [OF m1 i1 n refl refl, of empty_result] p1 by blast
  have b: "Mismatched (processObservation ?e2 empty_result ?ctl ?cand)
             = Mismatched empty_result @ [?cand] \<and>
           Errors (processObservation ?e2 empty_result ?ctl ?cand)
             = Errors empty_result @
               (case snd (matching ?e2 ?ctl ?cand) of
                  Some cerr \<Rightarrow> [resultErr ?e2 ''compare'' cerr] | None \<Rightarrow> []) @
               [\<lparr>Operation = ''ignore'', ResultError.Experiment = Experiment.Name ?e2,
                 ResultError.Err = CallerError 8 ''ignore failed''\<rparr>]"
    using ignoring_first_decides [OF m2 i2 n refl refl, of empty_result] p2 by blast
  have c: "matching example_experiment ?ctl ?cand = (False, None)"
    by (simp add: matching_def example_experiment_def example_observation_def same_value_def)
  have d: "Experiment.Name example_experiment = ''example''"
    by (simp add: example_experiment_def)
  show ?thesis
    using a b by (simp add: c d empty_result_def)
qed

text \<open>
  Claim C6. When neither observation carries an error and the comparator returns an
  error, the candidate does not match, whatever boolean came with the error: an operation
  error with operation \<open>compare\<close> is appended to \<^verbatim>\<open>Errors\<close> and the candidate goes on to the
  ignore predicates, ending in \<^verbatim>\<open>Ignored\<close> or in \<^verbatim>\<open>Mismatched\<close>. If \<^verbatim>\<open>ignoring\<close> returns an
  error too, \<^verbatim>\<open>Errors\<close> receives the \<open>compare\<close> error and then the \<open>ignore\<close> error, and the
  candidate is appended to \<^verbatim>\<open>Mismatched\<close>.
\<close>

theorem comparator_error_accumulates:
  assumes "Observation.Err control = None" and "Observation.Err candidate = None"
    and "comparator e (Value control) (Value candidate) = (ok, Some cerr)"
    and "r' = processObservation e r control candidate"
    and "compare_err = \<lparr>Operation = ''compare'', ResultError.Experiment = Experiment.Name e,
                         ResultError.Err = cerr\<rparr>"
  shows "matching e control candidate = (ok, Some cerr) \<and>
         (\<exists>more. Errors r' = Errors r @ compare_err # more) \<and>
         ((Ignored r' = Ignored r @ [candidate] \<and> Mismatched r' = Mismatched r) \<or>
          (Mismatched r' = Mismatched r @ [candidate] \<and> Ignored r' = Ignored r)) \<and>
         (\<forall>b ierr. ignoring e control candidate = (b, Some ierr) \<longrightarrow>
            Errors r' = Errors r @
              [compare_err,
               \<lparr>Operation = ''ignore'', ResultError.Experiment = Experiment.Name e,
                 ResultError.Err = ierr\<rparr>] \<and>
            Mismatched r' = Mismatched r @ [candidate] \<and> Ignored r' = Ignored r)"
proof -
  have m: "matching e control candidate = (ok, Some cerr)"
    using assms(1,2,3) by (simp add: matching_def)
  then have nm: "\<not> matched e control candidate"
    by (simp add: matched_def)
  have "is_ignored e control candidate \<noteq> is_mismatched e control candidate"
    using nm by (auto simp add: is_ignored_def is_mismatched_def)
  then have one: "(Ignored r' = Ignored r @ [candidate] \<and> Mismatched r' = Mismatched r) \<or>
          (Mismatched r' = Mismatched r @ [candidate] \<and> Ignored r' = Ignored r)"
    by (auto simp add: assms(4) processObservation_Ignored processObservation_Mismatched)
  have errs: "\<exists>more. Errors r' = Errors r @ compare_err # more"
    using m by (simp add: assms(4,5) processObservation_Errors process_errors_def resultErr_def)
  have both: "Errors r' = Errors r @
              [compare_err,
               \<lparr>Operation = ''ignore'', ResultError.Experiment = Experiment.Name e,
                 ResultError.Err = ierr\<rparr>] \<and>
            Mismatched r' = Mismatched r @ [candidate] \<and> Ignored r' = Ignored r"
    if "ignoring e control candidate = (b, Some ierr)" for b ierr
    using m nm that
    by (simp add: assms(4,5) processObservation_Errors process_errors_def resultErr_def
        processObservation_Ignored processObservation_Mismatched is_ignored_def is_mismatched_def)
  show ?thesis using m one errs both by blast
qed

theorem comparator_error_accumulates_witness:
  "Errors (processObservation
      (example_experiment\<lparr>comparator := failing_compare, ignores := [failing_ignore]\<rparr>)
      empty_result (example_observation ''control'' (Some 1) None)
      (example_observation ''a'' (Some 1) None))
     = [\<lparr>Operation = ''compare'', ResultError.Experiment = ''example'',
         ResultError.Err = CallerError 7 ''compare failed''\<rparr>,
        \<lparr>Operation = ''ignore'', ResultError.Experiment = ''example'',
         ResultError.Err = CallerError 8 ''ignore failed''\<rparr>] \<and>
   Mismatched (processObservation
      (example_experiment\<lparr>comparator := failing_compare, ignores := [failing_ignore]\<rparr>)
      empty_result (example_observation ''control'' (Some 1) None)
      (example_observation ''a'' (Some 1) None))
     = [example_observation ''a'' (Some 1) None]"
proof -
  let ?ctl = "example_observation ''control'' (Some 1) None"
  let ?cand = "example_observation ''a'' (Some 1) None"
  let ?e = "example_experiment\<lparr>comparator := failing_compare, ignores := [failing_ignore]\<rparr>"
  have h1: "Observation.Err ?ctl = None" and h2: "Observation.Err ?cand = None"
    by (simp_all add: example_observation_def)
  have h3: "comparator ?e (Value ?ctl) (Value ?cand) = (True, Some (CallerError 7 ''compare failed''))"
    by (simp add: failing_compare_def)
  have ig: "ignoring ?e ?ctl ?cand = (False, Some (CallerError 8 ''ignore failed''))"
    by (simp add: ignoring_def failing_ignore_def)
  have "Errors (processObservation ?e empty_result ?ctl ?cand) =
          Errors empty_result @
            [\<lparr>Operation = ''compare'', ResultError.Experiment = Experiment.Name ?e,
              ResultError.Err = CallerError 7 ''compare failed''\<rparr>,
             \<lparr>Operation = ''ignore'', ResultError.Experiment = Experiment.Name ?e,
              ResultError.Err = CallerError 8 ''ignore failed''\<rparr>] \<and>
        Mismatched (processObservation ?e empty_result ?ctl ?cand) =
          Mismatched empty_result @ [?cand]"
    using comparator_error_accumulates [OF h1 h2 h3 refl refl, of empty_result] ig
    by blast
  then show ?thesis
    by (simp add: empty_result_def example_experiment_def)
qed

text \<open>
  Claim C7, as the code has it. For a behavior whose call returns, \<^verbatim>\<open>observe\<close> returns an
  observation with the name it was given and the experiment it ran for; the value and
  the error that the behavior returned are stored in \<^verbatim>\<open>Value\<close> and \<^verbatim>\<open>Err\<close>. A nil function is
  looked up in the registry first; when the function is nil and the registry has no
  function for the name, \<^verbatim>\<open>observe\<close> returns an observation whose \<^verbatim>\<open>Value\<close> is nil and whose
  \<^verbatim>\<open>Err\<close> is the error of \<^verbatim>\<open>behaviorNotFound\<close>, with the text that \<^verbatim>\<open>fmt.Errorf\<close> formats from
  the two names. A behavior that panics is not recovered: the panic leaves \<^verbatim>\<open>observe\<close>.
\<close>

theorem observe_captures:
  "(\<forall>v err. b = Some (Returns v err) \<or>
             b = None \<and> map_of (behaviors e) name = Some (Some (Returns v err)) \<longrightarrow>
      observe e name b =
        Inr \<lparr>Observation.Experiment = Some (self e), Observation.Name = name, Value = v,
             Observation.Err = err\<rparr>) \<and>
   (b = None \<and> (name \<notin> fst ` set (behaviors e) \<or> map_of (behaviors e) name = Some None) \<longrightarrow>
      observe e name b =
        Inr \<lparr>Observation.Experiment = Some (self e), Observation.Name = name, Value = None,
             Observation.Err = Some (behaviorNotFound e name)\<rparr> \<and>
      Error (behaviorNotFound e name) =
        ''Behavior '' @ fmt_q e name @ '' not found for experiment '' @
        fmt_q e (Experiment.Name e)) \<and>
   (b = Some Panics \<or> b = None \<and> map_of (behaviors e) name = Some (Some Panics) \<longrightarrow>
      observe e name b = Inl BehaviorPanic)"
proof -
  have absent: "map_of (behaviors e) name = None" if "name \<notin> fst ` set (behaviors e)"
    using that by (simp add: map_of_eq_None_iff)
  show ?thesis
    by (auto simp add: observe_def behaviors_at_def behaviorNotFound_def Let_def absent)
qed

theorem observe_captures_witness:
  "observe example_experiment ''a'' (Some (Returns (Some 2) (Some (CallerError 3 ''boom''))))
     = Inr (example_observation ''a'' (Some 2) (Some (CallerError 3 ''boom''))) \<and>
   observe example_experiment ''b'' None = Inr (example_observation ''b'' (Some 1) None) \<and>
   observe example_experiment ''missing'' None
     = Inr (example_observation ''missing'' None
              (Some (Errorf (''Behavior '' @ quote_letters ''missing'' @
                             '' not found for experiment '' @ quote_letters ''example'')))) \<and>
   observe (example_experiment\<lparr>behaviors := panicking_candidates\<rparr>) ''a'' None
     = Inl BehaviorPanic"
proof -
  have n: "Experiment.Name example_experiment = ''example''"
    and q: "fmt_q example_experiment = quote_letters"
    and s: "self example_experiment = 1"
    and b: "map_of (behaviors example_experiment) ''b'' = Some (Some (Returns (Some 1) None))"
    and m: "''missing'' \<notin> fst ` set (behaviors example_experiment)"
    and p: "map_of (behaviors (example_experiment\<lparr>behaviors := panicking_candidates\<rparr>)) ''a''
              = Some (Some Panics)"
    by (simp_all add: example_defs)
  have c1: "observe example_experiment ''a''
              (Some (Returns (Some 2) (Some (CallerError 3 ''boom''))))
            = Inr \<lparr>Observation.Experiment = Some (self example_experiment),
                   Observation.Name = ''a'', Value = Some 2,
                   Observation.Err = Some (CallerError 3 ''boom'')\<rparr>"
    using observe_captures [of "Some (Returns (Some 2) (Some (CallerError 3 ''boom'')))"
        example_experiment "''a''"]
    by blast
  have c2: "observe example_experiment ''b'' None
            = Inr \<lparr>Observation.Experiment = Some (self example_experiment),
                   Observation.Name = ''b'', Value = Some 1, Observation.Err = None\<rparr>"
    using observe_captures [of None example_experiment "''b''"] b by blast
  have c3: "observe example_experiment ''missing'' None
            = Inr \<lparr>Observation.Experiment = Some (self example_experiment),
                   Observation.Name = ''missing'', Value = None,
                   Observation.Err = Some (behaviorNotFound example_experiment ''missing'')\<rparr>"
    "Error (behaviorNotFound example_experiment ''missing'') =
       ''Behavior '' @ fmt_q example_experiment ''missing'' @ '' not found for experiment '' @
       fmt_q example_experiment (Experiment.Name example_experiment)"
    using observe_captures [of None example_experiment "''missing''"] m by blast+
  have c4: "observe (example_experiment\<lparr>behaviors := panicking_candidates\<rparr>) ''a'' None
            = Inl BehaviorPanic"
    using observe_captures [of None "example_experiment\<lparr>behaviors := panicking_candidates\<rparr>"
        "''a''"] p
    by blast
  have msg: "behaviorNotFound example_experiment ''missing''
                = Errorf (''Behavior '' @ quote_letters ''missing'' @
                          '' not found for experiment '' @ quote_letters ''example'')"
    using c3(2) by (cases "behaviorNotFound example_experiment ''missing''")
      (simp_all add: behaviorNotFound_def n q)
  show ?thesis
    using c1 c2 c3(1) c4 by (simp add: msg s example_observation_def)
qed

text \<open>
  Claim C7 as stated fails for a behavior that panics: \<^verbatim>\<open>observe\<close> returns no observation,
  and the failure of the behavior is not captured in \<^verbatim>\<open>Err\<close> but leaves \<^verbatim>\<open>observe\<close>.
\<close>

theorem observe_panic_counterexample:
  "observe example_experiment ''a'' (Some Panics) = Inl BehaviorPanic \<and>
   isl (observe (example_experiment\<lparr>behaviors := panicking_candidates\<rparr>) ''a''
          (behaviors_at (example_experiment\<lparr>behaviors := panicking_candidates\<rparr>) ''a''))"
  by (simp add: observe_def behaviors_at_def example_defs)

text \<open>
  Claim C8. In the result of a run, \<^verbatim>\<open>Ignored\<close> and \<^verbatim>\<open>Mismatched\<close> have no observation in
  common, each of their elements is an entry of \<^verbatim>\<open>Candidates\<close>, the entries of \<^verbatim>\<open>Candidates\<close>
  are pairwise different, and a candidate is in neither sequence exactly when \<^verbatim>\<open>matching\<close>
  returned true without an error for it and the control.
\<close>

theorem ignored_mismatched_partition:
  fixes e :: "'v Experiment"
  assumes "registry_ok e" and "schedule_ok e sched" and "(name, flag) \<in> set sched"
    and "calls_return e sched"
  shows "\<exists>t ctl. Run e name sched = Inr t \<and> Control (returned t) = Some ctl \<and>
           set (Ignored (returned t)) \<inter> set (Mismatched (returned t)) = {} \<and>
           (\<forall>c \<in> set (Ignored (returned t)) \<union> set (Mismatched (returned t)).
              Some c \<in> set (Candidates (returned t))) \<and>
           distinct (Candidates (returned t)) \<and>
           (\<forall>c. Some c \<in> set (Candidates (returned t)) \<longrightarrow>
              (c \<notin> set (Ignored (returned t)) \<and> c \<notin> set (Mismatched (returned t)))
                = (matching e ctl c = (True, None)))"
proof -
  define ctl where "ctl = slot e (name, flag)"
  define cs where "cs = map (slot e) (filter (\<lambda>s. fst s \<noteq> name) sched)"
  from Run_char [OF assms ctl_def cs_def]
  obtain r where r: "Run e name sched = Inr (finish e r)"
    "Control r = Some ctl" "Candidates r = map Some cs"
    "Ignored r = filter (is_ignored e ctl) cs"
    "Mismatched r = filter (is_mismatched e ctl) cs"
    by blast
  have "distinct (map fst (filter (\<lambda>s. fst s \<noteq> name) sched))"
    using assms(2) by (simp add: schedule_ok_def distinct_map_filter)
  moreover have "\<forall>s \<in> set (filter (\<lambda>s. fst s \<noteq> name) sched).
                   abandoned e (snd s) \<or> behaviors_at e (fst s) \<noteq> Some Panics"
    using assms(4) by (simp add: calls_return_def)
  ultimately have "distinct cs"
    unfolding cs_def by (rule distinct_slots)
  then have d: "distinct (map Some cs)"
    by (simp add: distinct_map)
  have a: "set (filter (is_ignored e ctl) cs) \<inter> set (filter (is_mismatched e ctl) cs) = {}"
    by (auto simp add: is_ignored_def is_mismatched_def)
  have b: "\<forall>c \<in> set (filter (is_ignored e ctl) cs) \<union> set (filter (is_mismatched e ctl) cs).
             Some c \<in> set (map Some cs)"
    by auto
  have c: "\<forall>c. Some c \<in> set (map Some cs) \<longrightarrow>
              (c \<notin> set (filter (is_ignored e ctl) cs) \<and>
               c \<notin> set (filter (is_mismatched e ctl) cs))
                = (matching e ctl c = (True, None))"
    by (auto simp add: is_ignored_def is_mismatched_def matched_def)
  show ?thesis
    using r(1,2) a b c d
    by (intro exI [of _ "finish e r"] exI [of _ ctl]) (simp add: finish_fields r(3,4,5))
qed

theorem ignored_mismatched_partition_witness:
  "registry_ok example_experiment \<and> schedule_ok example_experiment example_schedule \<and>
   calls_return example_experiment example_schedule \<and>
   (\<exists>t ctl. Run example_experiment ''control'' example_schedule = Inr t \<and>
      Control (returned t) = Some ctl \<and>
      set (Ignored (returned t)) \<inter> set (Mismatched (returned t)) = {} \<and>
      distinct (Candidates (returned t)) \<and>
      Some (example_observation ''a'' (Some 2) None) \<in> set (Candidates (returned t)) \<and>
      example_observation ''a'' (Some 2) None \<in> set (Mismatched (returned t)) \<and>
      matching example_experiment ctl (example_observation ''a'' (Some 2) None) \<noteq> (True, None) \<and>
      Some (example_observation ''b'' (Some 1) None) \<in> set (Candidates (returned t)) \<and>
      example_observation ''b'' (Some 1) None \<notin> set (Ignored (returned t)) \<and>
      example_observation ''b'' (Some 1) None \<notin> set (Mismatched (returned t)) \<and>
      matching example_experiment ctl (example_observation ''b'' (Some 1) None) = (True, None))"
proof -
  from ignored_mismatched_partition
    [OF example_ok(1,2) example_members(1) example_calls_return(1)]
  obtain t ctl where t: "Run example_experiment ''control'' example_schedule = Inr t"
    "Control (returned t) = Some ctl"
    "set (Ignored (returned t)) \<inter> set (Mismatched (returned t)) = {}"
    "distinct (Candidates (returned t))"
    "\<forall>c. Some c \<in> set (Candidates (returned t)) \<longrightarrow>
        (c \<notin> set (Ignored (returned t)) \<and> c \<notin> set (Mismatched (returned t)))
          = (matching example_experiment ctl c = (True, None))"
    by blast
  have c: "Candidates (returned t)
             = [Some (example_observation ''b'' (Some 1) None),
                Some (example_observation ''a'' (Some 2) None)]"
    and m: "Mismatched (returned t) = [example_observation ''a'' (Some 2) None]"
    and ctl: "ctl = example_observation ''control'' (Some 1) None"
    using example_run(1,2,3) t(2) by (simp_all add: t(1))
  have b: "matching example_experiment ctl (example_observation ''b'' (Some 1) None) = (True, None)"
    by (simp add: ctl matching_def example_defs)
  have "Some (example_observation ''b'' (Some 1) None) \<in> set (Candidates (returned t))"
    by (simp add: c)
  with t(5) b have neither: "example_observation ''b'' (Some 1) None \<notin> set (Ignored (returned t))"
    "example_observation ''b'' (Some 1) None \<notin> set (Mismatched (returned t))"
    by blast+
  have "Some (example_observation ''a'' (Some 2) None) \<in> set (Candidates (returned t))"
    "example_observation ''a'' (Some 2) None \<in> set (Mismatched (returned t))"
    by (simp_all add: c m)
  with t(5) have a: "matching example_experiment ctl (example_observation ''a'' (Some 2) None)
                       \<noteq> (True, None)"
    by blast
  show ?thesis
    using t(1,2,3,4) c m a b neither example_ok(1,2) example_calls_return(1) by auto
qed

text \<open>
  Claim C9. In the concurrent branch a candidate whose context was done first is
  classified like any other. Its observation has a nil value and a nil error, so when the
  control completed without an error \<^verbatim>\<open>matching\<close> calls the comparator on the control's value
  and nil. The verdict decides: the candidate is in \<^verbatim>\<open>Ignored\<close> or \<^verbatim>\<open>Mismatched\<close> exactly when
  the comparator does not return true without an error, and in \<^verbatim>\<open>Ignored\<close> exactly when,
  in addition, \<^verbatim>\<open>ignoring\<close> returns true without an error.
\<close>

theorem timed_out_candidate_classified:
  fixes e :: "'v Experiment"
  assumes "registry_ok e" and "schedule_ok e sched" and "(name, False) \<in> set sched"
    and "runConcurrently e" and "timeout e = Some d"
    and "(bname, True) \<in> set sched" and "bname \<noteq> name"
    and "observe e name (behaviors_at e name) = Inr ctl" and "Observation.Err ctl = None"
    and "calls_return e sched"
  shows "\<exists>t. Run e name sched = Inr t \<and> Control (returned t) = Some ctl \<and>
           Some (timed_out bname) \<in> set (Candidates (returned t)) \<and>
           matching e ctl (timed_out bname) = comparator e (Value ctl) None \<and>
           (timed_out bname \<in> set (Ignored (returned t)) \<union> set (Mismatched (returned t)))
             = (comparator e (Value ctl) None \<noteq> (True, None)) \<and>
           (timed_out bname \<in> set (Ignored (returned t)))
             = (comparator e (Value ctl) None \<noteq> (True, None) \<and>
                ignoring e ctl (timed_out bname) = (True, None))"
proof -
  define cs where "cs = map (slot e) (filter (\<lambda>s. fst s \<noteq> name) sched)"
  have "behaviors_at e name \<noteq> Some Panics" and "ctl = captured e name"
    using assms(8) by (auto simp add: observe_registered split: if_splits)
  then have ctl: "ctl = slot e (name, False)"
    by (simp add: slot_cases abandoned_def)
  from Run_char [OF assms(1,2,3,10) ctl cs_def]
  obtain r where r: "Run e name sched = Inr (finish e r)"
    "Control r = Some ctl" "Candidates r = map Some cs"
    "Ignored r = filter (is_ignored e ctl) cs"
    "Mismatched r = filter (is_mismatched e ctl) cs"
    by blast
  have "slot e (bname, True) = timed_out bname"
    using assms(4,5) by (simp add: slot_cases abandoned_def)
  moreover have "(bname, True) \<in> set (filter (\<lambda>s. fst s \<noteq> name) sched)"
    using assms(6,7) by simp
  ultimately have mem: "timed_out bname \<in> set cs"
    unfolding cs_def by (metis image_eqI set_map)
  have m: "matching e ctl (timed_out bname) = comparator e (Value ctl) None"
    using assms(9) by (simp add: matching_def)
  have "(timed_out bname \<in> set (Ignored r) \<union> set (Mismatched r))
          = (comparator e (Value ctl) None \<noteq> (True, None))"
    using mem by (auto simp add: r(4,5) is_ignored_def is_mismatched_def matched_def m)
  moreover have "(timed_out bname \<in> set (Ignored r))
          = (comparator e (Value ctl) None \<noteq> (True, None) \<and>
             ignoring e ctl (timed_out bname) = (True, None))"
    using mem by (auto simp add: r(4) is_ignored_def matched_def m)
  ultimately show ?thesis
    using r(1,2,3) mem m by (simp add: finish_fields)
qed

theorem timed_out_candidate_classified_witness:
  "registry_ok concurrent_experiment \<and> schedule_ok concurrent_experiment example_schedule \<and>
   calls_return concurrent_experiment example_schedule \<and>
   (\<exists>t. Run concurrent_experiment ''control'' example_schedule = Inr t \<and>
      Some (timed_out ''a'') \<in> set (Candidates (returned t)) \<and>
      matching concurrent_experiment (example_observation ''control'' (Some 1) None)
        (timed_out ''a'') = (False, None) \<and>
      timed_out ''a'' \<in> set (Ignored (returned t)) \<union> set (Mismatched (returned t)) \<and>
      timed_out ''a'' \<notin> set (Ignored (returned t)))"
proof -
  have c: "runConcurrently concurrent_experiment"
    and d: "timeout concurrent_experiment = Some 500"
    and ne: "''a'' \<noteq> ''control''"
    and noerr: "Observation.Err (example_observation ''control'' (Some 1) None :: int Observation) = None"
    and cmp: "comparator concurrent_experiment
                (Value (example_observation ''control'' (Some 1) None)) None = (False, None)"
    by (simp_all add: example_defs)
  have ig: "ignoring concurrent_experiment (example_observation ''control'' (Some 1) None)
              (timed_out ''a'') = (False, None)"
    by (simp add: ignoring_def example_defs)
  show ?thesis
    using timed_out_candidate_classified [OF example_ok(3,4) example_members(1) c d
        example_members(2) ne example_control(2) noerr example_calls_return(2)]
      example_ok(3,4) example_calls_return(2)
    by (auto simp add: cmp ig)
qed

text \<open>
  Claim C10. The result passed to the publish sink holds no operation error with
  operation \<open>publish\<close>. The result that \<^verbatim>\<open>Run\<close> returns is the published one with, when the
  sink returned an error, that error appended to \<^verbatim>\<open>Errors\<close> as a \<open>publish\<close> operation error;
  the error reporter is called with the errors of the returned result, when there are any.
\<close>

theorem publish_error_after_sink:
  fixes e :: "'v Experiment"
  assumes "registry_ok e" and "schedule_ok e sched" and "(name, flag) \<in> set sched"
    and "calls_return e sched"
  shows "\<exists>t. Run e name sched = Inr t \<and>
           (\<forall>x \<in> set (Errors (published t)). Operation x \<noteq> ''publish'') \<and>
           returned t = (published t)\<lparr>Errors := Errors (returned t)\<rparr> \<and>
           Errors (returned t) = Errors (published t) @
             (case publisher e (published t) of
                Some err \<Rightarrow> [\<lparr>Operation = ''publish'', ResultError.Experiment = Experiment.Name e,
                             ResultError.Err = err\<rparr>]
              | None \<Rightarrow> []) \<and>
           reported t = (if Errors (returned t) = [] then None else Some (Errors (returned t)))"
proof -
  from Run_char [OF assms refl refl]
  obtain r where r: "Run e name sched = Inr (finish e r)"
    "Errors r = before_errors e @ wait_errors e sched @
       concat (map (process_errors e (slot e (name, flag)))
                 (map (slot e) (filter (\<lambda>s. fst s \<noteq> name) sched)))"
    by blast
  have "\<forall>x \<in> set (Errors r). Operation x \<noteq> ''publish''"
  proof
    fix x
    assume "x \<in> set (Errors r)"
    then have "Operation x \<in> {''before_run'', ''timeout'', ''compare'', ''ignore''}"
      unfolding r(2) by (rule run_error_operations)
    then show "Operation x \<noteq> ''publish''"
      by auto
  qed
  moreover have "publish_errors e r =
      (case publisher e r of
                Some err \<Rightarrow> [\<lparr>Operation = ''publish'', ResultError.Experiment = Experiment.Name e,
                             ResultError.Err = err\<rparr>]
              | None \<Rightarrow> [])"
    by (simp add: publish_errors_def resultErr_def split: option.splits)
  ultimately show ?thesis
    using r(1) finish_returned [of e r]
    by (intro exI [of _ "finish e r"]) (simp add: finish_fields)
qed

theorem publish_error_after_sink_witness:
  "registry_ok failing_sinks_experiment \<and>
   schedule_ok failing_sinks_experiment example_schedule \<and>
   calls_return failing_sinks_experiment example_schedule \<and>
   (\<exists>t. Run failing_sinks_experiment ''control'' example_schedule = Inr t \<and>
      Errors (published t)
        = [\<lparr>Operation = ''before_run'', ResultError.Experiment = ''example'',
            ResultError.Err = CallerError 4 ''before failed''\<rparr>] \<and>
      (\<forall>x \<in> set (Errors (published t)). Operation x \<noteq> ''publish'') \<and>
      Errors (returned t) = Errors (published t) @
        [\<lparr>Operation = ''publish'', ResultError.Experiment = ''example'',
          ResultError.Err = CallerError 9 ''publish failed''\<rparr>] \<and>
      reported t = Some (Errors (returned t)))"
proof -
  have ok: "registry_ok failing_sinks_experiment"
    "schedule_ok failing_sinks_experiment example_schedule"
    "(''control'', False) \<in> set example_schedule"
    "calls_return failing_sinks_experiment example_schedule"
    using example_ok(1,2) example_members(1) example_calls_return(1)
    by (simp_all add: registry_ok_def schedule_ok_def calls_return_def abandoned_def
        behaviors_at_def failing_sinks_experiment_def)
  have n: "Experiment.Name failing_sinks_experiment = ''example''"
    and p: "publisher failing_sinks_experiment = failing_publisher"
    by (simp_all add: failing_sinks_experiment_def example_defs)
  from publish_error_after_sink [OF ok]
  obtain t where t: "Run failing_sinks_experiment ''control'' example_schedule = Inr t"
    "\<forall>x \<in> set (Errors (published t)). Operation x \<noteq> ''publish''"
    "Errors (returned t) = Errors (published t) @
             (case publisher failing_sinks_experiment (published t) of
                Some err \<Rightarrow> [\<lparr>Operation = ''publish'',
                             ResultError.Experiment = Experiment.Name failing_sinks_experiment,
                             ResultError.Err = err\<rparr>]
              | None \<Rightarrow> [])"
    "reported t = (if Errors (returned t) = [] then None else Some (Errors (returned t)))"
    by blast
  have e: "Errors (published t)
        = [\<lparr>Operation = ''before_run'', ResultError.Experiment = ''example'',
            ResultError.Err = CallerError 4 ''before failed''\<rparr>]"
    using example_run(4) by (simp add: t(1))
  show ?thesis
    using t ok e by (simp add: n p failing_publisher_def)
qed

end
